theory Spec2Isabelle
  imports Complex_Main "HOL-Library.Stream"
begin

section \<open>Conventions of the embedding\<close>

text \<open>
  The two source files are \<^verbatim>\<open>src/utils/arousal.py\<close> (the classes
  \<^verbatim>\<open>ArousalMonitor\<close> and \<^verbatim>\<open>ArousalIntegrator\<close>) and
  \<^verbatim>\<open>src/environment/social_gridworld.py\<close> (the class
  \<^verbatim>\<open>SimpleSocialGridWorld\<close>).

  \<^item> In \<^verbatim>\<open>arousal.py\<close> every number is a float with arbitrary inputs; its floats
    are binary64 numbers with rounding, overflow, the infinities and nan.
  \<^item> In \<^verbatim>\<open>social_gridworld.py\<close> the only floats are the rewards and error
    magnitudes of one step, sums of at most three of the constants \<^verbatim>\<open>0.1\<close>,
    \<^verbatim>\<open>0.5\<close>, \<^verbatim>\<open>1.0\<close>, \<^verbatim>\<open>5.0\<close> and \<^verbatim>\<open>10.0\<close>; they are read as
    real numbers.
  \<^item> Python's \<^verbatim>\<open>int\<close> is \<open>int\<close>; \<^verbatim>\<open>%\<close> is \<open>mod\<close> (both take the sign of
    the divisor), with the \<^verbatim>\<open>ZeroDivisionError\<close> written out.
  \<^item> Where Python raises, the model returns the exception as a value. A method that
    assigns to \<^verbatim>\<open>self\<close> takes the object and returns it updated, next to its result;
    an exception leaves the object as it was at the \<^verbatim>\<open>raise\<close>.
\<close>

datatype error = RuntimeError | ZeroDivisionError | ValueError | OverflowError

section \<open>Floating-point numbers\<close>

text \<open>
  A Python \<^verbatim>\<open>float\<close> and a numpy \<^verbatim>\<open>float64\<close> are IEEE 754 binary64 numbers: a
  finite value, an infinity or nan. The two zeros are not told apart: they compare
  equal, and the one operation of this program that tells them apart, numpy's division
  by a zero, is written for the positive zero.
\<close>

datatype pyfloat = Fin real | PInf | NInf | NaN

text \<open>
  Rounding to nearest, ties to even: a real number is scaled by its unit in the last
  place (53 significant bits; below \<open>2 powi (- 1022)\<close> the unit of the
  subnormal numbers), rounded to an integer and scaled back; a result of magnitude
  \<open>2 ^ 1024\<close> or more is an infinity.
\<close>

definition round_half_even :: "real \<Rightarrow> int" where
  "round_half_even x =
     (let f = \<lfloor>x\<rfloor>; r = x - of_int f
      in if r < 1/2 then f else if r > 1/2 then f + 1 else if even f then f else f + 1)"

definition ulp_exponent :: "real \<Rightarrow> int" where
  "ulp_exponent x = max \<lfloor>log 2 \<bar>x\<bar>\<rfloor> (- 1022) - 52"

definition rnd :: "real \<Rightarrow> pyfloat" where
  "rnd x =
     (if x = 0 then Fin 0
      else
        let q = 2 powi (ulp_exponent x);
            y = of_int (round_half_even (x / q)) * q
        in if y \<ge> 2 ^ 1024 then PInf else if y \<le> - (2 ^ 1024) then NInf else Fin y)"

text \<open>The arithmetic of Python floats: every result is the rounded exact result.\<close>

fun fneg :: "pyfloat \<Rightarrow> pyfloat" where
  "fneg (Fin a) = Fin (- a)"
| "fneg PInf = NInf"
| "fneg NInf = PInf"
| "fneg NaN = NaN"

fun fabs :: "pyfloat \<Rightarrow> pyfloat" where
  "fabs (Fin a) = Fin \<bar>a\<bar>"
| "fabs NaN = NaN"
| "fabs _ = PInf"

fun fadd :: "pyfloat \<Rightarrow> pyfloat \<Rightarrow> pyfloat" where
  "fadd (Fin a) (Fin b) = rnd (a + b)"
| "fadd NaN _ = NaN"
| "fadd _ NaN = NaN"
| "fadd (Fin a) y = y"
| "fadd x (Fin b) = x"
| "fadd x y = (if x = y then x else NaN)"

definition fsub :: "pyfloat \<Rightarrow> pyfloat \<Rightarrow> pyfloat" where
  "fsub x y = fadd x (fneg y)"

fun fmul :: "pyfloat \<Rightarrow> pyfloat \<Rightarrow> pyfloat" where
  "fmul (Fin a) (Fin b) = rnd (a * b)"
| "fmul NaN _ = NaN"
| "fmul _ NaN = NaN"
| "fmul (Fin a) y = (if a = 0 then NaN else if a > 0 then y else fneg y)"
| "fmul x (Fin b) = (if b = 0 then NaN else if b > 0 then x else fneg x)"
| "fmul x y = (if x = y then PInf else NInf)"

text \<open>Python's \<^verbatim>\<open>/\<close> on floats raises \<^verbatim>\<open>ZeroDivisionError\<close> for a zero divisor,
  whatever the dividend.\<close>

fun fdiv :: "pyfloat \<Rightarrow> pyfloat \<Rightarrow> error + pyfloat" where
  "fdiv x (Fin b) =
     (if b = 0 then Inl ZeroDivisionError
      else Inr (case x of
                  Fin a \<Rightarrow> rnd (a / b)
                | NaN \<Rightarrow> NaN
                | PInf \<Rightarrow> (if b > 0 then PInf else NInf)
                | NInf \<Rightarrow> (if b > 0 then NInf else PInf)))"
| "fdiv NaN _ = Inr NaN"
| "fdiv _ NaN = Inr NaN"
| "fdiv (Fin a) _ = Inr (Fin 0)"
| "fdiv _ _ = Inr NaN"

text \<open>The comparison \<^verbatim>\<open>x > y\<close>; every comparison with nan is false.
  \<^verbatim>\<open>x < y\<close> is \<open>fgt y x\<close>.\<close>

fun fgt :: "pyfloat \<Rightarrow> pyfloat \<Rightarrow> bool" where
  "fgt NaN _ = False"
| "fgt _ NaN = False"
| "fgt (Fin a) (Fin b) = (a > b)"
| "fgt _ PInf = False"
| "fgt PInf _ = True"
| "fgt NInf _ = False"
| "fgt (Fin a) NInf = True"

text \<open>
  \<^verbatim>\<open>x ** 2\<close> on a Python float calls the \<^verbatim>\<open>pow\<close> of the C library and raises
  \<^verbatim>\<open>OverflowError\<close> when a finite \<^verbatim>\<open>x\<close> has an infinite result. The C library is not
  code of this repository; its square is taken as the correctly rounded one.
\<close>

fun fpow2 :: "pyfloat \<Rightarrow> error + pyfloat" where
  "fpow2 (Fin a) = (case rnd (a * a) of PInf \<Rightarrow> Inl OverflowError | r \<Rightarrow> Inr r)"
| "fpow2 NaN = Inr NaN"
| "fpow2 _ = Inr PInf"

text \<open>\<^verbatim>\<open>np.clip(x, lo, hi)\<close> on a scalar is \<^verbatim>\<open>np.minimum(np.maximum(x, lo), hi)\<close>;
  both propagate nan.\<close>

definition np_maximum :: "pyfloat \<Rightarrow> pyfloat \<Rightarrow> pyfloat" where
  "np_maximum x y = (if x = NaN \<or> y = NaN then NaN else if fgt x y then x else y)"

definition np_minimum :: "pyfloat \<Rightarrow> pyfloat \<Rightarrow> pyfloat" where
  "np_minimum x y = (if x = NaN \<or> y = NaN then NaN else if fgt y x then x else y)"

definition np_clip :: "pyfloat \<Rightarrow> pyfloat \<Rightarrow> pyfloat \<Rightarrow> pyfloat" where
  "np_clip x lo hi = np_minimum (np_maximum x lo) hi"

text \<open>
  Division of numpy arrays does not raise: a zero divisor gives nan for a zero or nan
  dividend and an infinity otherwise (the divisor read as \<open>+0.0\<close>).
\<close>

definition np_div :: "pyfloat \<Rightarrow> pyfloat \<Rightarrow> pyfloat" where
  "np_div x y =
     (case fdiv x y of
        Inr r \<Rightarrow> r
      | Inl e \<Rightarrow> (case x of
                    Fin a \<Rightarrow> (if a = 0 then NaN else if a > 0 then PInf else NInf)
                  | z \<Rightarrow> z))"

text \<open>
  \<^verbatim>\<open>np.exp\<close>, taken as the correctly rounded exponential: it overflows to the
  positive infinity and underflows to zero where the exponential does.
\<close>

fun np_exp :: "pyfloat \<Rightarrow> pyfloat" where
  "np_exp (Fin a) = rnd (exp a)"
| "np_exp PInf = PInf"
| "np_exp NInf = Fin 0"
| "np_exp NaN = NaN"

section \<open>ArousalMonitor\<close>

record ArousalMonitor =
  domain :: string
  base :: pyfloat
  surprise_sens :: pyfloat
  salience_sens :: pyfloat
  stress_thresh :: pyfloat
  time_sens :: pyfloat
  current_arousal :: pyfloat
  arousal_history :: "pyfloat list"
  surprise_component :: "pyfloat list"
  salience_component :: "pyfloat list"
  stress_component :: "pyfloat list"

text \<open>\<^verbatim>\<open>ArousalMonitor.__init__\<close>.\<close>

definition ArousalMonitor_init ::
  "string \<Rightarrow> pyfloat \<Rightarrow> pyfloat \<Rightarrow> pyfloat \<Rightarrow> pyfloat \<Rightarrow> pyfloat \<Rightarrow> ArousalMonitor" where
  "ArousalMonitor_init domain_name base_arousal surprise_sensitivity salience_sensitivity
       stress_threshold time_pressure_factor =
     \<lparr> domain = domain_name,
       base = base_arousal,
       surprise_sens = surprise_sensitivity,
       salience_sens = salience_sensitivity,
       stress_thresh = stress_threshold,
       time_sens = time_pressure_factor,
       current_arousal = base_arousal,
       arousal_history = [],
       surprise_component = [],
       salience_component = [],
       stress_component = [] \<rparr>"

text \<open>
  The defaults of the keyword arguments are the literals \<^verbatim>\<open>0.3\<close>, \<^verbatim>\<open>0.5\<close>,
  \<^verbatim>\<open>0.3\<close>, \<^verbatim>\<open>0.8\<close> and \<^verbatim>\<open>0.2\<close>, that is, the binary64 numbers nearest to
  them.
\<close>

definition literal_0_3 :: real where "literal_0_3 = 5404319552844595 / 2 ^ 54"
definition literal_0_8 :: real where "literal_0_8 = 3602879701896397 / 2 ^ 52"
definition literal_0_2 :: real where "literal_0_2 = 3602879701896397 / 2 ^ 54"

definition default_monitor :: "string \<Rightarrow> ArousalMonitor" where
  "default_monitor domain_name =
     ArousalMonitor_init domain_name (Fin literal_0_3) (Fin (1/2)) (Fin literal_0_3)
       (Fin literal_0_8) (Fin literal_0_2)"

text \<open>
  \<^verbatim>\<open>compute_arousal\<close>. Three operations can raise, all of them before anything is
  appended or assigned: the division by \<^verbatim>\<open>max_time\<close>, the division by
  \<^verbatim>\<open>self.stress_thresh\<close> and the square of the excess.
\<close>

definition compute_arousal ::
  "ArousalMonitor \<Rightarrow> pyfloat \<Rightarrow> pyfloat \<Rightarrow> pyfloat \<Rightarrow> pyfloat
     \<Rightarrow> (error + pyfloat) \<times> ArousalMonitor" where
  "compute_arousal self prediction_error reward_magnitude time_remaining max_time =
     (let surprise_boost = fadd (Fin 1) (fmul (fabs prediction_error) (surprise_sens self));
          salience_boost = fadd (Fin 1) (fmul (fabs reward_magnitude) (salience_sens self))
      in case fdiv time_remaining max_time of
           Inl e \<Rightarrow> (Inl e, self)
         | Inr time_fraction \<Rightarrow>
             let time_pressure =
                   fadd (Fin 1) (fmul (fsub (Fin 1) time_fraction) (time_sens self));
                 raw_arousal =
                   fmul (fmul (fmul (base self) surprise_boost) salience_boost) time_pressure
             in case (if fgt raw_arousal (stress_thresh self)
                      then (case fdiv (fsub raw_arousal (stress_thresh self))
                                      (stress_thresh self) of
                              Inl e \<Rightarrow> Inl e
                            | Inr excess \<Rightarrow>
                                (case fpow2 excess of
                                   Inl e \<Rightarrow> Inl e
                                 | Inr square \<Rightarrow> fdiv (Fin 1) (fadd (Fin 1) square)))
                      else Inr (Fin 1)) of
                  Inl e \<Rightarrow> (Inl e, self)
                | Inr stress_penalty \<Rightarrow>
                    let arousal = np_clip (fmul raw_arousal stress_penalty) (Fin 0) (Fin 1)
                    in (Inr arousal,
                        self\<lparr> surprise_component := surprise_component self @ [surprise_boost],
                              salience_component := salience_component self @ [salience_boost],
                              stress_component := stress_component self @ [stress_penalty],
                              current_arousal := arousal,
                              arousal_history := arousal_history self @ [arousal] \<rparr>))"

text \<open>The values of the locals \<^verbatim>\<open>raw_arousal\<close> and \<^verbatim>\<open>excess\<close> of
  \<^verbatim>\<open>compute_arousal\<close>, as functions of the time fraction and of the raw arousal.\<close>

definition raw_arousal ::
  "ArousalMonitor \<Rightarrow> pyfloat \<Rightarrow> pyfloat \<Rightarrow> pyfloat \<Rightarrow> pyfloat" where
  "raw_arousal self prediction_error reward_magnitude time_fraction =
     fmul (fmul (fmul (base self)
                   (fadd (Fin 1) (fmul (fabs prediction_error) (surprise_sens self))))
             (fadd (Fin 1) (fmul (fabs reward_magnitude) (salience_sens self))))
       (fadd (Fin 1) (fmul (fsub (Fin 1) time_fraction) (time_sens self)))"

definition excess_of :: "ArousalMonitor \<Rightarrow> pyfloat \<Rightarrow> error + pyfloat" where
  "excess_of self raw = fdiv (fsub raw (stress_thresh self)) (stress_thresh self)"

text \<open>The value of the local \<^verbatim>\<open>stress_penalty\<close> of \<^verbatim>\<open>compute_arousal\<close>, or the
  exception raised on the way to it, as a function of the raw arousal.\<close>

definition penalty_of :: "ArousalMonitor \<Rightarrow> pyfloat \<Rightarrow> error + pyfloat" where
  "penalty_of self raw =
     (if fgt raw (stress_thresh self)
      then (case excess_of self raw of
              Inl e \<Rightarrow> Inl e
            | Inr excess \<Rightarrow>
                (case fpow2 excess of
                   Inl e \<Rightarrow> Inl e
                 | Inr square \<Rightarrow> fdiv (Fin 1) (fadd (Fin 1) square)))
      else Inr (Fin 1))"

text \<open>The two getters read \<^verbatim>\<open>self\<close> and assign nothing.\<close>

definition get_learning_rate_multiplier ::
  "ArousalMonitor \<Rightarrow> pyfloat \<Rightarrow> pyfloat option \<Rightarrow> pyfloat \<times> ArousalMonitor" where
  "get_learning_rate_multiplier self base_lr arousal =
     (let arousal_value = (case arousal of Some a \<Rightarrow> a | None \<Rightarrow> current_arousal self);
          multiplier = fadd (Fin 1) arousal_value
      in (fmul base_lr multiplier, self))"

definition get_exploration_bonus ::
  "ArousalMonitor \<Rightarrow> pyfloat \<Rightarrow> pyfloat option \<Rightarrow> pyfloat \<times> ArousalMonitor" where
  "get_exploration_bonus self base_epsilon arousal =
     (let arousal_value = (case arousal of Some a \<Rightarrow> a | None \<Rightarrow> current_arousal self);
          exploration = fmul base_epsilon (fadd (Fin 1) arousal_value)
      in (np_clip exploration (Fin 0) (Fin 1), self))"

text \<open>\<^verbatim>\<open>ArousalMonitor.reset\<close>: one assignment.\<close>

definition monitor_reset :: "ArousalMonitor \<Rightarrow> ArousalMonitor" where
  "monitor_reset self = self\<lparr> current_arousal := base self \<rparr>"

text \<open>
  \<^verbatim>\<open>get_statistics\<close>. The reductions \<^verbatim>\<open>np.mean\<close>, \<^verbatim>\<open>np.std\<close>, \<^verbatim>\<open>np.min\<close> and
  \<^verbatim>\<open>np.max\<close> are numpy's and enter as parameters; the dictionary is a map.
\<close>

record reductions =
  np_mean :: "pyfloat list \<Rightarrow> pyfloat"
  np_std :: "pyfloat list \<Rightarrow> pyfloat"
  np_min :: "pyfloat list \<Rightarrow> pyfloat"
  np_max :: "pyfloat list \<Rightarrow> pyfloat"

definition get_statistics ::
  "reductions \<Rightarrow> ArousalMonitor \<Rightarrow> (string \<rightharpoonup> pyfloat) \<times> ArousalMonitor" where
  "get_statistics np self =
     (if arousal_history self = []
      then ([''mean'' \<mapsto> base self, ''std'' \<mapsto> Fin 0, ''min'' \<mapsto> base self,
             ''max'' \<mapsto> base self, ''final'' \<mapsto> base self], self)
      else ([''mean'' \<mapsto> np_mean np (arousal_history self),
             ''std'' \<mapsto> np_std np (arousal_history self),
             ''min'' \<mapsto> np_min np (arousal_history self),
             ''max'' \<mapsto> np_max np (arousal_history self),
             ''final'' \<mapsto> last (arousal_history self)], self))"

text \<open>
  The calls a driver can make on a monitor, and the monitor after one call. A call that
  raises leaves the monitor as \<^verbatim>\<open>compute_arousal\<close> left it.
\<close>

datatype monitor_call =
    ComputeArousal pyfloat pyfloat pyfloat pyfloat
  | GetLearningRateMultiplier pyfloat "pyfloat option"
  | GetExplorationBonus pyfloat "pyfloat option"
  | MonitorReset
  | GetStatistics

definition invoke :: "reductions \<Rightarrow> ArousalMonitor \<Rightarrow> monitor_call \<Rightarrow> ArousalMonitor" where
  "invoke np self c =
     (case c of
        ComputeArousal pe rm tr mt \<Rightarrow> snd (compute_arousal self pe rm tr mt)
      | GetLearningRateMultiplier base_lr a \<Rightarrow> snd (get_learning_rate_multiplier self base_lr a)
      | GetExplorationBonus base_epsilon a \<Rightarrow> snd (get_exploration_bonus self base_epsilon a)
      | MonitorReset \<Rightarrow> monitor_reset self
      | GetStatistics \<Rightarrow> snd (get_statistics np self))"

definition histories ::
  "ArousalMonitor \<Rightarrow> pyfloat list \<times> pyfloat list \<times> pyfloat list \<times> pyfloat list" where
  "histories self =
     (arousal_history self, surprise_component self, salience_component self,
      stress_component self)"

definition histories_aligned :: "ArousalMonitor \<Rightarrow> bool" where
  "histories_aligned self =
     (length (surprise_component self) = length (arousal_history self) \<and>
      length (salience_component self) = length (arousal_history self) \<and>
      length (stress_component self) = length (arousal_history self))"

section \<open>ArousalIntegrator\<close>

text \<open>\<^verbatim>\<open>weighted_integration\<close>: the two-element arrays are written out.\<close>

definition weighted_integration :: "pyfloat \<Rightarrow> pyfloat \<Rightarrow> pyfloat \<Rightarrow> pyfloat \<times> pyfloat" where
  "weighted_integration arousal_state arousal_agent temperature =
     (let exp_state = np_exp (np_div arousal_state temperature);
          exp_agent = np_exp (np_div arousal_agent temperature);
          total = fadd exp_state exp_agent
      in (np_div exp_state total, np_div exp_agent total))"

definition gated_integration :: "pyfloat \<Rightarrow> pyfloat \<Rightarrow> pyfloat \<Rightarrow> pyfloat \<times> pyfloat" where
  "gated_integration arousal_state arousal_agent threshold =
     (let diff = fabs (fsub arousal_state arousal_agent)
      in if fgt threshold diff then (Fin (1/2), Fin (1/2))
         else if fgt arousal_state arousal_agent then (Fin 1, Fin 0)
         else (Fin 0, Fin 1))"

subsection \<open>Concrete inputs\<close>

text \<open>
  A monitor constructed with \<^verbatim>\<open>stress_threshold=0.0\<close> and the other defaults, and
  the binary64 numbers that the literals \<^verbatim>\<open>1e155\<close>, \<^verbatim>\<open>1e308\<close>, \<^verbatim>\<open>0.001\<close>,
  \<^verbatim>\<open>0.01\<close>, \<^verbatim>\<open>0.11\<close> and \<^verbatim>\<open>0.1\<close> denote.
\<close>

text \<open>On a list of one element the mean, the minimum and the maximum are that element
  and the standard deviation is zero.\<close>

definition single_reductions :: reductions where
  "single_reductions =
     \<lparr> np_mean = last, np_std = (\<lambda>xs. Fin 0), np_min = last, np_max = last \<rparr>"

definition zero_threshold_monitor :: ArousalMonitor where
  "zero_threshold_monitor =
     ArousalMonitor_init ''state'' (Fin literal_0_3) (Fin (1/2)) (Fin literal_0_3) (Fin 0)
       (Fin literal_0_2)"

definition literal_1e155 :: real where "literal_1e155 = 8397345134458861 * 2 ^ 462"
definition literal_1e308 :: real where "literal_1e308 = 5010420900022432 * 2 ^ 971"
definition literal_0_001 :: real where "literal_0_001 = 1152921504606847 / 2 ^ 60"
definition literal_0_01 :: real where "literal_0_01 = 5764607523034235 / 2 ^ 59"
definition literal_0_11 :: real where "literal_0_11 = 7926335344172073 / 2 ^ 56"
definition literal_0_1 :: real where "literal_0_1 = 3602879701896397 / 2 ^ 55"

section \<open>SimpleSocialGridWorld\<close>

datatype Action = UP | DOWN | LEFT | RIGHT | INTERACT

datatype NPCMood = FRIENDLY | NEUTRAL | HOSTILE

record GridState =
  agent_pos :: "int \<times> int"
  goal_pos :: "int \<times> int"
  npc_pos :: "int \<times> int"
  npc_mood_actual :: NPCMood
  npc_mood_estimate :: "NPCMood option"
  interaction_count :: int
  steps :: int

record Transition =
  state :: GridState
  action :: Action
  reward :: real
  next_state :: GridState
  "done" :: bool
  info :: "string \<rightharpoonup> real"

subsection \<open>The random generator\<close>

text \<open>
  \<^verbatim>\<open>self.rng\<close> is a numpy \<^verbatim>\<open>Generator\<close>, which is not code of this repository. It
  enters the model as the infinite stream of the raw numbers it is going to yield: a
  bounded draw reads the next raw number and reduces it into the range. Every sequence
  of in-range draws comes from some stream, so a statement for all streams covers every
  behaviour of the generator.

  \<^verbatim>\<open>np.random.default_rng(seed)\<close> is deterministic for an integer seed (the parameter
  \<open>seeded\<close> below maps the seed to its stream) and takes fresh entropy from the operating
  system for \<^verbatim>\<open>None\<close> (the parameter \<open>entropy\<close>, which may differ at every
  construction).
\<close>

type_synonym Generator = "nat stream"

definition default_rng :: "(int \<Rightarrow> Generator) \<Rightarrow> Generator \<Rightarrow> int option \<Rightarrow> Generator" where
  "default_rng seeded entropy seed = (case seed of None \<Rightarrow> entropy | Some s \<Rightarrow> seeded s)"

text \<open>\<^verbatim>\<open>rng.integers(low, high)\<close> raises \<^verbatim>\<open>ValueError\<close> when \<^verbatim>\<open>low >= high\<close>.\<close>

definition integers :: "Generator \<Rightarrow> int \<Rightarrow> int \<Rightarrow> (error + int) \<times> Generator" where
  "integers g low high =
     (if low \<ge> high then (Inl ValueError, g)
      else (Inr (low + int (shd g) mod (high - low)), stl g))"

text \<open>\<^verbatim>\<open>rng.choice(xs)\<close> on a list that is not empty (the only call passes \<^verbatim>\<open>[0, 1]\<close>).\<close>

definition choice :: "Generator \<Rightarrow> 'a list \<Rightarrow> 'a \<times> Generator" where
  "choice g xs = (xs ! (shd g mod length xs), stl g)"

subsection \<open>The environment object\<close>

text \<open>
  The attributes of \<^verbatim>\<open>self\<close>. Four of them cannot keep their names: \<^verbatim>\<open>size\<close> is
  \<open>grid_size\<close>, and \<^verbatim>\<open>npc_pos\<close>, \<^verbatim>\<open>goal_pos\<close> and \<^verbatim>\<open>state\<close>, which are also
  fields of \<open>GridState\<close> and \<open>Transition\<close>, are \<open>self_npc_pos\<close>, \<open>self_goal_pos\<close> and
  \<open>self_state\<close>. \<^verbatim>\<open>self.state\<close> is \<^verbatim>\<open>None\<close> until the first \<^verbatim>\<open>reset()\<close>.
\<close>

record SimpleSocialGridWorld =
  grid_size :: int
  self_npc_pos :: "int \<times> int"
  self_goal_pos :: "int \<times> int"
  mood_change_freq :: int
  max_steps :: int
  rng :: Generator
  episode_count :: int
  current_mood :: NPCMood
  self_state :: "GridState option"
  total_rewards :: "real list"

text \<open>\<^verbatim>\<open>__init__\<close>; the defaults are \<open>size = 5\<close>, \<open>npc_position = (2, 2)\<close>,
  \<open>goal_position = (4, 4)\<close>, \<open>mood_change_frequency = 75\<close>, \<open>max_steps = 50\<close> and
  \<open>seed = None\<close>.\<close>

definition SimpleSocialGridWorld_init ::
  "(int \<Rightarrow> Generator) \<Rightarrow> Generator \<Rightarrow> int \<Rightarrow> int \<times> int \<Rightarrow> int \<times> int \<Rightarrow> int \<Rightarrow> int \<Rightarrow> int option
     \<Rightarrow> SimpleSocialGridWorld" where
  "SimpleSocialGridWorld_init seeded entropy size_arg npc_position goal_position
       mood_change_frequency max_steps_arg seed =
     \<lparr> grid_size = size_arg,
       self_npc_pos = npc_position,
       self_goal_pos = goal_position,
       mood_change_freq = mood_change_frequency,
       max_steps = max_steps_arg,
       rng = default_rng seeded entropy seed,
       episode_count = 0,
       current_mood = NEUTRAL,
       self_state = None,
       total_rewards = [] \<rparr>"

text \<open>\<^verbatim>\<open>_update_npc_mood\<close>: \<^verbatim>\<open>list(NPCMood)\<close> lists the moods in the order of their
  declaration, \<^verbatim>\<open>moods.remove\<close> deletes the current one (it is always there).\<close>

definition update_npc_mood :: "SimpleSocialGridWorld \<Rightarrow> SimpleSocialGridWorld" where
  "update_npc_mood self =
     (let moods = remove1 (current_mood self) [FRIENDLY, NEUTRAL, HOSTILE];
          mood_indices = [0 ..< length moods];
          (selected_index, g) = choice (rng self) mood_indices
      in self\<lparr> rng := g, current_mood := moods ! selected_index \<rparr>)"

definition action_to_delta :: "Action \<Rightarrow> int \<times> int" where
  "action_to_delta act =
     (if act = UP then (0, -1)
      else if act = DOWN then (0, 1)
      else if act = LEFT then (-1, 0)
      else if act = RIGHT then (1, 0)
      else (0, 0))"

definition is_valid_position :: "SimpleSocialGridWorld \<Rightarrow> int \<times> int \<Rightarrow> bool" where
  "is_valid_position self pos =
     (let (x, y) = pos in 0 \<le> x \<and> x < grid_size self \<and> 0 \<le> y \<and> y < grid_size self)"

definition is_adjacent_to_npc :: "SimpleSocialGridWorld \<Rightarrow> int \<times> int \<Rightarrow> bool" where
  "is_adjacent_to_npc self pos =
     (let dist = \<bar>fst pos - fst (self_npc_pos self)\<bar> + \<bar>snd pos - snd (self_npc_pos self)\<bar>
      in dist = 1)"

text \<open>
  The loop of \<^verbatim>\<open>reset\<close> that draws the start position: two draws per round, until the
  cell is neither the goal nor the NPC. It raises in its first round when \<^verbatim>\<open>size\<close> is
  not positive, and it need not end (a grid of one cell that is the goal): the result
  \<open>None\<close> is the loop that runs forever.
\<close>

partial_function (option) draw_start ::
  "int \<Rightarrow> int \<times> int \<Rightarrow> int \<times> int \<Rightarrow> Generator \<Rightarrow> ((error + int \<times> int) \<times> Generator) option" where
  "draw_start size_arg goal npc g =
     (case integers g 0 size_arg of
        (Inl e, g1) \<Rightarrow> Some (Inl e, g1)
      | (Inr x, g1) \<Rightarrow>
          (case integers g1 0 size_arg of
             (Inl e, g2) \<Rightarrow> Some (Inl e, g2)
           | (Inr y, g2) \<Rightarrow>
               if (x, y) \<noteq> goal \<and> (x, y) \<noteq> npc then Some (Inr (x, y), g2)
               else draw_start size_arg goal npc g2))"

text \<open>\<^verbatim>\<open>reset\<close>. \<^verbatim>\<open>%\<close> raises \<^verbatim>\<open>ZeroDivisionError\<close> for a zero frequency, after the
  episode counter has been incremented.\<close>

definition reset ::
  "SimpleSocialGridWorld \<Rightarrow> ((error + GridState) \<times> SimpleSocialGridWorld) option" where
  "reset self0 =
     (let self1 = self0\<lparr> episode_count := episode_count self0 + 1 \<rparr>
      in if mood_change_freq self1 = 0 then Some (Inl ZeroDivisionError, self1)
         else
           let self2 = (if episode_count self1 mod mood_change_freq self1 = 0
                        then update_npc_mood self1 else self1)
           in case draw_start (grid_size self2) (self_goal_pos self2) (self_npc_pos self2)
                     (rng self2) of
                None \<Rightarrow> None
              | Some (Inl e, g) \<Rightarrow> Some (Inl e, self2\<lparr> rng := g \<rparr>)
              | Some (Inr agent_pos_new, g) \<Rightarrow>
                  let st = \<lparr> agent_pos = agent_pos_new,
                             goal_pos = self_goal_pos self2,
                             npc_pos = self_npc_pos self2,
                             npc_mood_actual = current_mood self2,
                             npc_mood_estimate = None,
                             interaction_count = 0,
                             steps = 0 \<rparr>
                  in Some (Inr st, self2\<lparr> rng := g, self_state := Some st \<rparr>))"

text \<open>
  \<^verbatim>\<open>step\<close>. The locals \<^verbatim>\<open>reward\<close>, \<^verbatim>\<open>done\<close>, \<^verbatim>\<open>info\<close>, \<^verbatim>\<open>new_pos\<close>,
  \<^verbatim>\<open>new_mood_estimate\<close> and \<^verbatim>\<open>new_interaction_count\<close> are assigned along the
  branches of the action; each branch returns them as a tuple. \<^verbatim>\<open>next_pos\<close> is the
  position before the move and is never assigned again.
\<close>

definition step ::
  "SimpleSocialGridWorld \<Rightarrow> Action \<Rightarrow> (error + Transition) \<times> SimpleSocialGridWorld" where
  "step self act =
     (case self_state self of
        None \<Rightarrow> (Inl RuntimeError, self)
      | Some st \<Rightarrow>
          let reward = 0 - 1/10;
              done = False;
              info = [''state_error'' \<mapsto> 0, ''agent_error'' \<mapsto> 0];
              next_pos = agent_pos st;
              new_pos = agent_pos st;
              (reward, done, info, new_pos, new_mood_estimate, new_interaction_count) =
                (if act = INTERACT then
                   (if is_adjacent_to_npc self (agent_pos st) then
                      let mood = npc_mood_actual st;
                          new_mood_estimate = Some mood;
                          (reward, info) =
                            (if mood = HOSTILE then (reward - 5, info(''agent_error'' \<mapsto> 5))
                             else if mood = FRIENDLY then (reward + 1, info)
                             else if mood = NEUTRAL then (reward + 0, info)
                             else (reward, info));
                          new_interaction_count = interaction_count st + 1;
                          done = (if new_interaction_count \<ge> 3 \<and> mood = HOSTILE then True
                                  else done)
                      in (reward, done, info, new_pos, new_mood_estimate, new_interaction_count)
                    else
                      (reward - 1/2, done, info(''state_error'' \<mapsto> 1/2), new_pos,
                       npc_mood_estimate st, interaction_count st))
                 else
                   let (dx, dy) = action_to_delta act;
                       new_pos = (fst (agent_pos st) + dx, snd (agent_pos st) + dy);
                       (reward, new_pos, info) =
                         (if \<not> is_valid_position self new_pos
                          then (reward - 1, agent_pos st, info(''state_error'' \<mapsto> 1))
                          else (reward, new_pos, info))
                   in (reward, done, info, new_pos, npc_mood_estimate st, interaction_count st));
              (reward, done) =
                (if next_pos = self_goal_pos self \<or> new_pos = self_goal_pos self
                 then (reward + 10, True) else (reward, done));
              new_steps = steps st + 1;
              done = (if new_steps \<ge> max_steps self then True else done);
              next_state = \<lparr> agent_pos = new_pos,
                             goal_pos = goal_pos st,
                             npc_pos = npc_pos st,
                             npc_mood_actual = npc_mood_actual st,
                             npc_mood_estimate = new_mood_estimate,
                             interaction_count = new_interaction_count,
                             steps = new_steps \<rparr>;
              transition = \<lparr> state = st, action = act, reward = reward,
                             next_state = next_state, done = done, info = info \<rparr>
          in (Inr transition,
              self\<lparr> self_state := Some next_state,
                    total_rewards := (if done then total_rewards self @ [reward]
                                      else total_rewards self) \<rparr>))"

subsection \<open>A driver\<close>

text \<open>
  The driver of an environment calls \<^verbatim>\<open>reset()\<close> and \<^verbatim>\<open>step(action)\<close> in some
  order. \<open>drive\<close> runs such a sequence of calls and collects what each call returned or
  raised (a driver that catches the exception and goes on); it is \<open>None\<close> when a
  \<^verbatim>\<open>reset()\<close> does not return.
\<close>

datatype call = Reset | Step Action

datatype outcome = ResetResult "error + GridState" | StepResult "error + Transition"

definition perform ::
  "SimpleSocialGridWorld \<Rightarrow> call \<Rightarrow> (outcome \<times> SimpleSocialGridWorld) option" where
  "perform self c =
     (case c of
        Reset \<Rightarrow> (case reset self of None \<Rightarrow> None | Some (r, self') \<Rightarrow> Some (ResetResult r, self'))
      | Step act \<Rightarrow> (let (r, self') = step self act in Some (StepResult r, self')))"

fun drive ::
  "SimpleSocialGridWorld \<Rightarrow> call list \<Rightarrow> (outcome list \<times> SimpleSocialGridWorld) option" where
  "drive self [] = Some ([], self)"
| "drive self (c # cs) =
     (case perform self c of
        None \<Rightarrow> None
      | Some (r, self') \<Rightarrow>
          (case drive self' cs of
             None \<Rightarrow> None
           | Some (rs, self'') \<Rightarrow> Some (r # rs, self'')))"

subsection \<open>Episodes in progress\<close>

text \<open>
  An environment is in an unfinished episode when a \<^verbatim>\<open>reset()\<close> has returned and
  every \<^verbatim>\<open>step\<close> since then has returned a transition with \<^verbatim>\<open>done = False\<close>.
  The \<^verbatim>\<open>reset()\<close> may start from any environment, so that the environments reached
  from a constructed one are among these.
\<close>

inductive in_episode :: "SimpleSocialGridWorld \<Rightarrow> bool" where
  started: "reset self = Some (Inr st, self') \<Longrightarrow> in_episode self'"
| continued: "in_episode self \<Longrightarrow> step self act = (Inr t, self') \<Longrightarrow> \<not> done t
                \<Longrightarrow> in_episode self'"

code_pred in_episode .

subsection \<open>Two concrete environments\<close>

text \<open>
  A world whose goal \<open>(2, 3)\<close> lies beside the NPC at \<open>(2, 2)\<close>, with a mood change at
  every episode, and the environment it is in after \<^verbatim>\<open>reset()\<close> and one
  \<^verbatim>\<open>step(RIGHT)\<close>: the generator's first raw numbers choose the mood \<open>HOSTILE\<close> and
  the start cell \<open>(1, 3)\<close>, and the step moves the agent onto the goal.
\<close>

definition goal_beside_npc_world :: SimpleSocialGridWorld where
  "goal_beside_npc_world =
     SimpleSocialGridWorld_init (\<lambda>s. 3 ## 6 ## 3 ## sconst 0) (sconst 0) 5 (2, 2) (2, 3) 1 50 (Some 42)"

definition hostile_at_goal_state :: GridState where
  "hostile_at_goal_state =
     \<lparr> agent_pos = (2, 3), goal_pos = (2, 3), npc_pos = (2, 2), npc_mood_actual = HOSTILE,
       npc_mood_estimate = None, interaction_count = 0, steps = 1 \<rparr>"

definition hostile_at_goal_world :: SimpleSocialGridWorld where
  "hostile_at_goal_world =
     \<lparr> grid_size = 5, self_npc_pos = (2, 2), self_goal_pos = (2, 3), mood_change_freq = 1,
       max_steps = 50, rng = sconst 0, episode_count = 1, current_mood = HOSTILE,
       self_state = Some hostile_at_goal_state, total_rewards = [99/10] \<rparr>"

section \<open>Properties of rounding\<close>

lemma ulp_exponent_eqI:
  assumes "2 powi e \<le> \<bar>x\<bar>" "\<bar>x\<bar> < 2 powi (e + 1)"
  shows "ulp_exponent x = max e (- 1022) - 52"
proof -
  have pos: "0 < \<bar>x\<bar>" using assms(1) by (smt (verit) zero_less_power_int)
  have a: "(2::real) powr (real_of_int e) = 2 powi e"
    by (simp add: powr_real_of_int')
  have b: "(2::real) powr (real_of_int e + 1) = 2 powi (e + 1)"
    using powr_real_of_int' [of 2 "e + 1"] by simp
  have "\<lfloor>log 2 \<bar>x\<bar>\<rfloor> = e"
    using assms pos by (simp add: floor_log_eq_powr_iff a b)
  then show ?thesis by (simp add: ulp_exponent_def)
qed

lemma rnd_0: "rnd 0 = Fin 0"
  by (simp add: rnd_def)

lemma rnd_1: "rnd 1 = Fin 1"
proof -
  have "ulp_exponent 1 = - 52" using ulp_exponent_eqI [of 0 1] by simp
  then show ?thesis by (simp add: rnd_def round_half_even_def Let_def power_int_minus)
qed

lemma rnd_not_NaN: "rnd x \<noteq> NaN"
  by (simp add: rnd_def Let_def)

lemma round_half_even_ge: "of_int n \<le> x \<Longrightarrow> n \<le> round_half_even x"
  by (auto simp: round_half_even_def Let_def le_floor_iff) linarith+

lemma rnd_lower_bound:
  assumes k: "- 1022 \<le> k" and x: "2 powi k \<le> x"
  shows "rnd x = PInf \<or> (\<exists>y. rnd x = Fin y \<and> 2 powi k \<le> y)"
proof -
  have xpos: "0 < x" using x by (smt (verit) zero_less_power_int)
  define e where "e = \<lfloor>log 2 \<bar>x\<bar>\<rfloor>"
  have le: "2 powi e \<le> x"
    using xpos floor_log_eq_powr_iff [of x 2 e] by (simp add: e_def powr_real_of_int')
  have "(2::real) powr (real_of_int k) \<le> x" using x by (simp add: powr_real_of_int')
  then have "real_of_int k \<le> log 2 x" using xpos le_log_iff [of 2 x "real_of_int k"] by simp
  then have ke: "k \<le> e" unfolding e_def using xpos by (simp add: le_floor_iff)
  with k have ue: "ulp_exponent x = e - 52" by (simp add: ulp_exponent_def e_def)
  let ?q = "(2::real) powi (e - 52)"
  let ?y = "of_int (round_half_even (x / ?q)) * ?q"
  have qpos: "0 < ?q" by simp
  have split: "(2::real) powi e = 2 ^ 52 * ?q" by (simp add: power_int_diff)
  then have "2 ^ 52 * ?q \<le> x" using le by simp
  then have "2 ^ 52 \<le> x / ?q" using qpos by (simp add: le_divide_eq)
  then have "of_int (2 ^ 52) \<le> x / ?q" by simp
  then have "(2 ^ 52 :: int) \<le> round_half_even (x / ?q)" by (rule round_half_even_ge)
  then have "(2 ^ 52 :: real) \<le> of_int (round_half_even (x / ?q))"
    by (metis of_int_le_iff of_int_numeral of_int_power)
  then have "2 ^ 52 * ?q \<le> ?y" using qpos by simp
  moreover have "(2::real) powi k \<le> 2 powi e" using ke by (intro power_int_increasing) simp_all
  ultimately have y: "2 powi k \<le> ?y" using split by linarith
  then have "0 < ?y" by (smt (verit) zero_less_power_int)
  then have "rnd x = (if ?y \<ge> 2 ^ 1024 then PInf else Fin ?y)"
    using xpos ue by (simp add: rnd_def Let_def)
  with y show ?thesis by auto
qed

lemma rnd_overflow:
  assumes "x \<ge> 2 ^ 1024"
  shows "rnd x = PInf"
proof -
  have "(2::real) powi 1024 \<le> x" using assms by simp
  from rnd_lower_bound [OF _ this] have "rnd x = PInf \<or> (\<exists>y. rnd x = Fin y \<and> 2 ^ 1024 \<le> y)"
    by simp
  moreover have "\<not> (\<exists>y. rnd x = Fin y \<and> 2 ^ 1024 \<le> y)"
    by (auto simp: rnd_def Let_def split: if_splits)
  ultimately show ?thesis by blast
qed

lemma rnd_nonneg:
  assumes "0 \<le> x"
  shows "rnd x = PInf \<or> (\<exists>y. rnd x = Fin y \<and> 0 \<le> y)"
proof (cases "x = 0")
  case True
  then show ?thesis by (simp add: rnd_0)
next
  case False
  let ?q = "(2::real) powi (ulp_exponent x)"
  have qpos: "0 < ?q" by simp
  with assms have "of_int 0 \<le> x / ?q" by simp
  then have "0 \<le> round_half_even (x / ?q)" by (rule round_half_even_ge)
  then have "0 \<le> of_int (round_half_even (x / ?q)) * ?q" using qpos by simp
  then show ?thesis using False by (auto simp: rnd_def Let_def)
qed

lemma rnd_evalI:
  assumes "2 powi e \<le> \<bar>x\<bar>" "\<bar>x\<bar> < 2 powi (e + 1)" "- 1022 \<le> e"
    and "round_half_even (x / 2 powi (e - 52)) = m"
    and "of_int m * 2 powi (e - 52) = y"
    and "\<bar>y\<bar> < 2 ^ 1024"
  shows "rnd x = Fin y"
proof -
  have "ulp_exponent x = e - 52" using ulp_exponent_eqI [OF assms(1,2)] assms(3) by simp
  moreover have "x \<noteq> 0" using assms(1) by (smt (verit) zero_less_power_int)
  ultimately show ?thesis using assms(4,5,6) by (auto simp: rnd_def Let_def)
qed

lemma rnd_literal_0_3: "rnd literal_0_3 = Fin literal_0_3"
  unfolding literal_0_3_def
  by (rule rnd_evalI [where e = "- 2" and m = 5404319552844595])
     (simp_all add: round_half_even_def power_int_minus)

subsection \<open>The error and the monotonicity of rounding\<close>

lemma round_half_even_le: "x \<le> of_int n \<Longrightarrow> round_half_even x \<le> n"
  by (auto simp: round_half_even_def Let_def floor_le_iff)

lemma round_half_even_err: "\<bar>of_int (round_half_even x) - x\<bar> \<le> 1/2"
  by (auto simp: round_half_even_def Let_def)

lemma round_half_even_of_int: "round_half_even (of_int m) = m"
  by (simp add: round_half_even_def)

lemma round_half_even_near:
  assumes "0 \<le> r" "r < 1/2"
  shows "round_half_even (of_int m + r) = m"
proof -
  have "\<lfloor>of_int m + r\<rfloor> = m" using assms by (intro floor_unique) simp_all
  then show ?thesis using assms by (simp add: round_half_even_def Let_def)
qed

lemma floor_log2_bounds:
  assumes "x \<noteq> 0"
  shows "2 powi \<lfloor>log 2 \<bar>x\<bar>\<rfloor> \<le> \<bar>x\<bar>" "\<bar>x\<bar> < 2 powi (\<lfloor>log 2 \<bar>x\<bar>\<rfloor> + 1)"
proof -
  have pos: "0 < \<bar>x\<bar>" using assms by simp
  have b: "(2::real) powr (real_of_int e + 1) = 2 powi (e + 1)" for e
    using powr_real_of_int' [of 2 "e + 1"] by simp
  from floor_log_eq_powr_iff [of "\<bar>x\<bar>" 2 "\<lfloor>log 2 \<bar>x\<bar>\<rfloor>"] pos
  show "2 powi \<lfloor>log 2 \<bar>x\<bar>\<rfloor> \<le> \<bar>x\<bar>" "\<bar>x\<bar> < 2 powi (\<lfloor>log 2 \<bar>x\<bar>\<rfloor> + 1)"
    by (simp_all add: powr_real_of_int' b)
qed

lemma floor_log2_mono:
  assumes "0 < x" "x \<le> y"
  shows "\<lfloor>log 2 \<bar>x\<bar>\<rfloor> \<le> \<lfloor>log 2 \<bar>y\<bar>\<rfloor>"
  using assms by (intro floor_mono) simp

lemma ulp_exponent_normal:
  assumes "2 powi (- 1022) \<le> \<bar>x\<bar>"
  shows "2 powi (ulp_exponent x) \<le> \<bar>x\<bar> * 2 powi (- 52)"
proof -
  have x0: "x \<noteq> 0" using assms by (smt (verit) zero_less_power_int abs_zero)
  have "- 1022 \<le> \<lfloor>log 2 \<bar>x\<bar>\<rfloor>"
  proof (rule ccontr)
    assume "\<not> - 1022 \<le> \<lfloor>log 2 \<bar>x\<bar>\<rfloor>"
    then have "\<lfloor>log 2 \<bar>x\<bar>\<rfloor> + 1 \<le> - 1022" by linarith
    then have "(2::real) powi (\<lfloor>log 2 \<bar>x\<bar>\<rfloor> + 1) \<le> 2 powi (- 1022)"
      by (rule power_int_increasing) simp
    with floor_log2_bounds(2) [OF x0] assms show False by linarith
  qed
  then have ue: "ulp_exponent x = \<lfloor>log 2 \<bar>x\<bar>\<rfloor> - 52" by (simp add: ulp_exponent_def)
  have "(2::real) powi (\<lfloor>log 2 \<bar>x\<bar>\<rfloor> + (- 52)) = 2 powi \<lfloor>log 2 \<bar>x\<bar>\<rfloor> * 2 powi (- 52)"
    by (rule power_int_add) simp
  then have "(2::real) powi (\<lfloor>log 2 \<bar>x\<bar>\<rfloor> - 52) = 2 powi \<lfloor>log 2 \<bar>x\<bar>\<rfloor> * 2 powi (- 52)"
    by (simp only: diff_conv_add_uminus)
  also have "\<dots> \<le> \<bar>x\<bar> * 2 powi (- 52)"
    using floor_log2_bounds(1) [OF x0] by (intro mult_right_mono) simp_all
  finally show ?thesis using ue by simp
qed

lemma ulp_exponent_subnormal:
  assumes "\<bar>x\<bar> < 2 powi (- 1022)" "x \<noteq> 0"
  shows "ulp_exponent x = - 1074"
proof -
  have "\<lfloor>log 2 \<bar>x\<bar>\<rfloor> < - 1022"
  proof (rule ccontr)
    assume "\<not> \<lfloor>log 2 \<bar>x\<bar>\<rfloor> < - 1022"
    then have "- 1022 \<le> \<lfloor>log 2 \<bar>x\<bar>\<rfloor>" by linarith
    then have "(2::real) powi (- 1022) \<le> 2 powi \<lfloor>log 2 \<bar>x\<bar>\<rfloor>"
      by (rule power_int_increasing) simp
    with floor_log2_bounds(1) [OF assms(2)] assms(1) show False by linarith
  qed
  then show ?thesis by (simp add: ulp_exponent_def)
qed

lemma ulp_exponent_le:
  assumes "y \<noteq> 0" "\<bar>y\<bar> < 2 powi (e + 1)" "- 1022 \<le> e"
  shows "ulp_exponent y \<le> e - 52"
proof -
  have "\<lfloor>log 2 \<bar>y\<bar>\<rfloor> \<le> e"
  proof (rule ccontr)
    assume "\<not> \<lfloor>log 2 \<bar>y\<bar>\<rfloor> \<le> e"
    then have "e + 1 \<le> \<lfloor>log 2 \<bar>y\<bar>\<rfloor>" by linarith
    then have "(2::real) powi (e + 1) \<le> 2 powi \<lfloor>log 2 \<bar>y\<bar>\<rfloor>"
      by (rule power_int_increasing) simp
    with floor_log2_bounds(1) [OF assms(1)] assms(2) show False by linarith
  qed
  with assms(3) show ?thesis by (simp add: ulp_exponent_def)
qed

lemma ulp_exponent_ge:
  assumes "2 powi e \<le> \<bar>y\<bar>"
  shows "e - 52 \<le> ulp_exponent y"
proof -
  have y0: "y \<noteq> 0" using assms by (smt (verit) zero_less_power_int abs_zero)
  have "e \<le> \<lfloor>log 2 \<bar>y\<bar>\<rfloor>"
  proof (rule ccontr)
    assume "\<not> e \<le> \<lfloor>log 2 \<bar>y\<bar>\<rfloor>"
    then have "\<lfloor>log 2 \<bar>y\<bar>\<rfloor> + 1 \<le> e" by linarith
    then have "(2::real) powi (\<lfloor>log 2 \<bar>y\<bar>\<rfloor> + 1) \<le> 2 powi e"
      by (rule power_int_increasing) simp
    with floor_log2_bounds(2) [OF y0] assms show False by linarith
  qed
  then show ?thesis by (simp add: ulp_exponent_def)
qed

lemma ulp_exponent_ge_min: "- 1074 \<le> ulp_exponent y"
  by (simp add: ulp_exponent_def)

lemma ulp_exponent_mono:
  assumes "0 < x" "x \<le> y"
  shows "ulp_exponent x \<le> ulp_exponent y"
  using floor_log2_mono [OF assms] by (simp add: ulp_exponent_def)

lemma abs_less_ulp:
  assumes "x \<noteq> 0"
  shows "\<bar>x\<bar> < 2 powi (ulp_exponent x + 53)"
proof -
  have "\<lfloor>log 2 \<bar>x\<bar>\<rfloor> + 1 \<le> ulp_exponent x + 53" by (simp add: ulp_exponent_def)
  then have "(2::real) powi (\<lfloor>log 2 \<bar>x\<bar>\<rfloor> + 1) \<le> 2 powi (ulp_exponent x + 53)"
    by (rule power_int_increasing) simp
  with floor_log2_bounds(2) [OF assms] show ?thesis by linarith
qed

lemma ulp_normal_le_abs:
  assumes "x \<noteq> 0" "- 1074 < ulp_exponent x"
  shows "2 powi (ulp_exponent x + 52) \<le> \<bar>x\<bar>"
proof -
  from assms(2) have "ulp_exponent x + 52 = \<lfloor>log 2 \<bar>x\<bar>\<rfloor>"
    by (simp add: ulp_exponent_def max_def split: if_splits)
  with floor_log2_bounds(1) [OF assms(1)] show ?thesis by simp
qed

lemma rnd_eq_FinD:
  assumes "rnd x = Fin y" "x \<noteq> 0"
  shows "y = of_int (round_half_even (x / 2 powi (ulp_exponent x))) * 2 powi (ulp_exponent x)"
    and "\<bar>y\<bar> < 2 ^ 1024"
  using assms by (auto simp: rnd_def Let_def split: if_splits)

lemma rnd_representable:
  assumes "y = of_int m * 2 powi (ulp_exponent y)" "\<bar>y\<bar> < 2 ^ 1024"
  shows "rnd y = Fin y"
proof (cases "y = 0")
  case True
  then show ?thesis by (simp add: rnd_0)
next
  case False
  let ?q = "(2::real) powi (ulp_exponent y)"
  have "y / ?q = of_int m" using assms(1) by (simp add: field_simps)
  then have "of_int (round_half_even (y / ?q)) * ?q = y"
    using assms(1) by (simp add: round_half_even_of_int)
  then show ?thesis using False assms(2) by (auto simp: rnd_def Let_def)
qed

lemma power_int_split:
  assumes "k' \<le> k"
  shows "(2::real) powi k = of_int (2 ^ nat (k - k')) * 2 powi k'"
proof -
  have "(2::real) powi ((k - k') + k') = 2 powi (k - k') * 2 powi k'"
    by (rule power_int_add) simp
  moreover have "(2::real) powi (k - k') = 2 ^ nat (k - k')"
    using assms by (simp add: power_int_def)
  ultimately show ?thesis by simp
qed

lemma rnd_error:
  assumes "rnd x = Fin y"
  shows "\<bar>y - x\<bar> \<le> 2 powi (ulp_exponent x) / 2"
proof (cases "x = 0")
  case True
  with assms show ?thesis by (simp add: rnd_0)
next
  case False
  let ?q = "(2::real) powi (ulp_exponent x)"
  have qpos: "0 < ?q" by simp
  from assms False have y: "y = of_int (round_half_even (x / ?q)) * ?q"
    by (auto simp: rnd_def Let_def split: if_splits)
  have "y - x = (of_int (round_half_even (x / ?q)) - x / ?q) * ?q"
    using qpos y by (simp add: field_simps)
  then have "\<bar>y - x\<bar> = \<bar>of_int (round_half_even (x / ?q)) - x / ?q\<bar> * ?q"
    using qpos by (simp add: abs_mult)
  also have "\<dots> \<le> 1/2 * ?q"
    using round_half_even_err [of "x / ?q"] qpos by (intro mult_right_mono) simp_all
  finally show ?thesis by simp
qed

lemma rnd_error_bound:
  assumes "rnd x = Fin y"
  shows "\<bar>y - x\<bar> \<le> \<bar>x\<bar> * 2 powi (- 53) + 2 powi (- 1075)"
proof (cases "x = 0")
  case True
  with assms show ?thesis by (simp add: rnd_0)
next
  case False
  have half: "(2::real) powi (- 52) = 2 * 2 powi (- 53)" "(2::real) powi (- 1074) = 2 * 2 powi (- 1075)"
    using power_int_add [of "2::real" 1 "- 53"] power_int_add [of "2::real" 1 "- 1075"]
    by simp_all
  have pos: "0 \<le> \<bar>x\<bar> * 2 powi (- 53)" "(0::real) \<le> 2 powi (- 1075)" by simp_all
  show ?thesis
  proof (cases "2 powi (- 1022) \<le> \<bar>x\<bar>")
    case True
    from ulp_exponent_normal [OF this] have "2 powi (ulp_exponent x) / 2 \<le> \<bar>x\<bar> * 2 powi (- 53)"
      unfolding half by linarith
    with rnd_error [OF assms] pos show ?thesis by linarith
  next
    case False
    then have "\<bar>x\<bar> < 2 powi (- 1022)" by simp
    from ulp_exponent_subnormal [OF this \<open>x \<noteq> 0\<close>]
    have "2 powi (ulp_exponent x) / 2 = (2::real) powi (- 1075)"
      using half(2) by (simp only:)
    with rnd_error [OF assms] pos show ?thesis by linarith
  qed
qed

lemma rnd_finite:
  assumes "\<bar>x\<bar> \<le> 2 ^ 1023"
  shows "\<exists>y. rnd x = Fin y"
proof (cases "x = 0")
  case True
  then show ?thesis by (simp add: rnd_0)
next
  case False
  let ?q = "(2::real) powi (ulp_exponent x)"
  let ?y = "of_int (round_half_even (x / ?q)) * ?q"
  have qpos: "0 < ?q" by simp
  have "?y - x = (of_int (round_half_even (x / ?q)) - x / ?q) * ?q"
    using qpos by (simp add: field_simps)
  then have "\<bar>?y - x\<bar> = \<bar>of_int (round_half_even (x / ?q)) - x / ?q\<bar> * ?q"
    using qpos by (simp add: abs_mult)
  also have "\<dots> \<le> 1/2 * ?q"
    using round_half_even_err [of "x / ?q"] qpos by (intro mult_right_mono) simp_all
  finally have err: "\<bar>?y - x\<bar> \<le> ?q / 2" by simp
  have "?q \<le> 2 ^ 971"
  proof -
    have "\<bar>x\<bar> < 2 powi (1023 + 1)"
    proof -
      have "(2::real) ^ 1023 < 2 powi (1023 + 1)" by simp
      with assms show ?thesis by linarith
    qed
    from ulp_exponent_le [OF False this] have "ulp_exponent x \<le> 971" by simp
    then have "?q \<le> 2 powi 971" by (rule power_int_increasing) simp
    then show ?thesis by simp
  qed
  moreover have "(2::real) ^ 1023 + 2 ^ 971 / 2 < 2 ^ 1024" by simp
  ultimately have "\<bar>?y\<bar> < 2 ^ 1024" using err assms by linarith
  then have "\<not> ?y \<ge> 2 ^ 1024" "\<not> ?y \<le> - (2 ^ 1024)" by linarith+
  then have "rnd x = Fin ?y" using False by (simp add: rnd_def Let_def)
  then show ?thesis by blast
qed

lemma rnd_idem:
  assumes "rnd x = Fin y"
  shows "rnd y = Fin y"
proof (cases "x = 0 \<or> y = 0")
  case True
  with assms show ?thesis by (auto simp: rnd_0)
next
  case False
  then have x0: "x \<noteq> 0" and y0: "y \<noteq> 0" by auto
  define k where "k = ulp_exponent x"
  define m where "m = round_half_even (x / 2 powi k)"
  let ?q = "(2::real) powi k"
  have qpos: "0 < ?q" by simp
  have y: "y = of_int m * ?q" and fin: "\<bar>y\<bar> < 2 ^ 1024"
    using rnd_eq_FinD [OF assms x0] by (simp_all add: k_def m_def)
  have big: "(2::real) powi (k + 53) = of_int (2 ^ 53) * ?q"
    using power_int_split [of k "k + 53"] by simp
  have "\<bar>x\<bar> < 2 powi (k + 53)" using abs_less_ulp [OF x0] by (simp add: k_def)
  then have "\<bar>x\<bar> < of_int (2 ^ 53) * ?q" using big by simp
  then have "\<bar>x / ?q\<bar> < of_int (2 ^ 53)" using qpos by (simp add: field_simps abs_mult)
  then have "x / ?q \<le> of_int (2 ^ 53)" "- of_int (2 ^ 53) \<le> x / ?q" by linarith+
  then have up: "x / ?q \<le> of_int (2 ^ 53)" and lo: "of_int (- (2 ^ 53)) \<le> x / ?q"
    by (simp_all only: of_int_minus)
  have "m \<le> 2 ^ 53" unfolding m_def using up by (rule round_half_even_le)
  moreover have "- (2 ^ 53) \<le> m" unfolding m_def using lo by (rule round_half_even_ge)
  ultimately have "m \<le> 2 ^ 53" "- (2 ^ 53) \<le> m" by simp_all
  then have mb: "\<bar>m\<bar> \<le> 2 ^ 53" by simp
  have ay: "\<bar>y\<bar> = of_int \<bar>m\<bar> * ?q" using y qpos by (simp add: abs_mult)
  show ?thesis
  proof (cases "\<bar>m\<bar> = 2 ^ 53")
    case True
    then have "\<bar>y\<bar> = 2 powi (k + 53)" using ay big by simp
    moreover have "(2::real) powi (k + 53) < 2 powi (k + 53 + 1)"
      by (rule power_int_strict_increasing) simp_all
    ultimately have "2 powi (k + 53) \<le> \<bar>y\<bar>" "\<bar>y\<bar> < 2 powi (k + 53 + 1)"
      by (simp_all only: order_refl)
    from ulp_exponent_eqI [OF this] ulp_exponent_ge_min [of x]
    have k': "ulp_exponent y = k + 1" by (simp add: k_def)
    have two: "(2::real) powi (k + 1) = of_int 2 * ?q"
      using power_int_split [of k "k + 1"] by simp
    from True have "m = 2 ^ 53 \<or> m = - (2 ^ 53)" by linarith
    then have "y = of_int (m div 2) * 2 powi (ulp_exponent y)"
      unfolding k' two using y by auto
    then show ?thesis using fin by (rule rnd_representable)
  next
    case False
    with mb have "\<bar>m\<bar> < 2 ^ 53" by simp
    then have "(of_int \<bar>m\<bar> :: real) < of_int (2 ^ 53)" by (simp only: of_int_less_iff)
    then have "of_int \<bar>m\<bar> * ?q < of_int (2 ^ 53) * ?q"
      using qpos by (simp only: mult_less_cancel_right_pos)
    then have "\<bar>y\<bar> < 2 powi (k + 53)" by (simp only: ay big)
    moreover have "k + 52 + 1 = k + 53" by simp
    ultimately have "\<bar>y\<bar> < 2 powi (k + 52 + 1)" by (simp only:)
    from ulp_exponent_le [OF y0 this] ulp_exponent_ge_min [of x]
    have "ulp_exponent y \<le> k" by (simp add: k_def)
    from power_int_split [OF this]
    have "y = of_int (m * 2 ^ nat (k - ulp_exponent y)) * 2 powi (ulp_exponent y)"
      using y by simp
    then show ?thesis using fin by (rule rnd_representable)
  qed
qed

lemma rnd_mono_lower:
  assumes "0 \<le> e" "rnd e = Fin e" "e \<le> z" "rnd z = Fin t"
  shows "e \<le> t"
proof (cases "e = 0")
  case True
  then show ?thesis using rnd_nonneg [of z] assms by auto
next
  case False
  then have epos: "0 < e" and zpos: "0 < z" using assms by simp_all
  have le: "ulp_exponent e \<le> ulp_exponent z" using epos assms(3) by (rule ulp_exponent_mono)
  show ?thesis
  proof (cases "ulp_exponent e = ulp_exponent z")
    case True
    let ?q = "(2::real) powi (ulp_exponent z)"
    have qpos: "0 < ?q" by simp
    define m where "m = round_half_even (e / ?q)"
    have e: "e = of_int m * ?q" using rnd_eq_FinD(1) [OF assms(2) False] True by (simp add: m_def)
    have t: "t = of_int (round_half_even (z / ?q)) * ?q"
      using rnd_eq_FinD(1) [OF assms(4)] zpos by simp
    have "of_int m * ?q \<le> z" using e assms(3) by simp
    then have "of_int m \<le> z / ?q" using qpos by (simp add: field_simps)
    then have "m \<le> round_half_even (z / ?q)" by (rule round_half_even_ge)
    then have "(of_int m :: real) \<le> of_int (round_half_even (z / ?q))" by (simp only: of_int_le_iff)
    then have "of_int m * ?q \<le> of_int (round_half_even (z / ?q)) * ?q"
      using qpos by (simp only: mult_le_cancel_right_pos)
    then show ?thesis using e t by simp
  next
    case False
    with le have lt: "ulp_exponent e < ulp_exponent z" by simp
    then have "ulp_exponent e + 53 \<le> ulp_exponent z + 52" by simp
    then have "(2::real) powi (ulp_exponent e + 53) \<le> 2 powi (ulp_exponent z + 52)"
      by (rule power_int_increasing) simp
    with abs_less_ulp [of e] epos have a: "e < 2 powi (ulp_exponent z + 52)" by simp
    have n: "- 1074 < ulp_exponent z" using lt ulp_exponent_ge_min [of e] by simp
    then have b: "2 powi (ulp_exponent z + 52) \<le> z" using ulp_normal_le_abs [of z] zpos by simp
    from n have "- 1022 \<le> ulp_exponent z + 52" by simp
    from rnd_lower_bound [OF this b] assms(4) have "2 powi (ulp_exponent z + 52) \<le> t" by simp
    with a show ?thesis by simp
  qed
qed

lemma rnd_le_one:
  assumes "0 \<le> x" "x \<le> 1"
  shows "\<exists>y. rnd x = Fin y \<and> 0 \<le> y \<and> y \<le> 1"
proof (cases "x = 0 \<or> x = 1")
  case True
  then show ?thesis by (auto simp: rnd_0 rnd_1)
next
  case False
  then have x0: "x \<noteq> 0" and x1: "x < 1" and xpos: "0 < x" using assms by simp_all
  define k where "k = ulp_exponent x"
  let ?q = "(2::real) powi k"
  define m where "m = round_half_even (x / ?q)"
  have qpos: "0 < ?q" by simp
  have "\<bar>x\<bar> < 2 powi (- 1 + 1)" using x1 xpos by simp
  from ulp_exponent_le [OF x0 this] have k: "k \<le> - 53" by (simp add: k_def)
  then have "k \<le> 0" by simp
  from power_int_split [OF this] have one: "1 = of_int (2 ^ nat (- k)) * ?q" by simp
  then have "x \<le> of_int (2 ^ nat (- k)) * ?q" using assms(2) by simp
  then have "x / ?q \<le> of_int (2 ^ nat (- k))" using qpos by (simp add: field_simps)
  then have "m \<le> 2 ^ nat (- k)" unfolding m_def by (rule round_half_even_le)
  then have "(of_int m :: real) \<le> of_int (2 ^ nat (- k))" by (simp only: of_int_le_iff)
  then have "of_int m * ?q \<le> of_int (2 ^ nat (- k)) * ?q"
    using qpos by (simp only: mult_le_cancel_right_pos)
  then have up: "of_int m * ?q \<le> 1" using one by linarith
  have "of_int 0 \<le> x / ?q" using xpos qpos by simp
  then have "0 \<le> m" unfolding m_def by (rule round_half_even_ge)
  then have lo: "0 \<le> of_int m * ?q" using qpos by simp
  have "(1::real) < 2 ^ 1024" by simp
  with up lo have "rnd x = Fin (of_int m * ?q)"
    using x0 by (simp add: rnd_def Let_def k_def m_def)
  with up lo show ?thesis by blast
qed

lemma rnd_subnormal_sum:
  assumes "0 \<le> e1" "0 \<le> e2" "rnd e1 = Fin e1" "rnd e2 = Fin e2"
    and "e1 + e2 < 2 powi (- 1022)"
  shows "rnd (e1 + e2) = Fin (e1 + e2)"
proof -
  have rep: "\<exists>m. e = of_int m * 2 powi (- 1074)"
    if "0 \<le> e" "rnd e = Fin e" "e < 2 powi (- 1022)" for e
  proof (cases "e = 0")
    case True
    then have "e = of_int 0 * 2 powi (- 1074)" by simp
    then show ?thesis by blast
  next
    case False
    with that have "\<bar>e\<bar> < 2 powi (- 1022)" by simp
    from ulp_exponent_subnormal [OF this False] rnd_eq_FinD(1) [OF that(2) False]
    show ?thesis by auto
  qed
  from rep [of e1] rep [of e2] assms obtain m1 m2
    where m: "e1 = of_int m1 * 2 powi (- 1074)" "e2 = of_int m2 * 2 powi (- 1074)"
    by (metis add.commute add_increasing2 le_less_trans le_add_same_cancel1 not_less order_less_imp_le)
  then have sum: "e1 + e2 = of_int (m1 + m2) * 2 powi (- 1074)" by (simp add: algebra_simps)
  show ?thesis
  proof (cases "e1 + e2 = 0")
    case True
    then show ?thesis by (simp add: rnd_0)
  next
    case False
    have small: "\<bar>e1 + e2\<bar> < 2 powi (- 1022)" using assms by simp
    have ue: "ulp_exponent (e1 + e2) = - 1074" by (rule ulp_exponent_subnormal [OF small False])
    have "e1 + e2 = of_int (m1 + m2) * 2 powi (ulp_exponent (e1 + e2))"
      unfolding ue by (rule sum)
    moreover have "(2::real) powi (- 1022) < 2 ^ 1024" by (simp add: power_int_minus)
    then have "\<bar>e1 + e2\<bar> < 2 ^ 1024" using small by linarith
    ultimately show ?thesis by (rule rnd_representable)
  qed
qed

lemma rnd_absorbs_one:
  assumes "rnd e = Fin e" "2 powi 54 \<le> e"
  shows "rnd (e + 1) = Fin e"
proof -
  have epos: "0 < e" using assms(2) by (smt (verit) zero_less_power_int)
  then have e0: "e \<noteq> 0" by simp
  define k where "k = ulp_exponent e"
  define m where "m = round_half_even (e / 2 powi k)"
  let ?q = "(2::real) powi k"
  have qpos: "0 < ?q" by simp
  have e: "e = of_int m * ?q" and fin: "\<bar>e\<bar> < 2 ^ 1024"
    using rnd_eq_FinD [OF assms(1) e0] by (simp_all add: k_def m_def)
  have "2 powi 54 \<le> \<bar>e\<bar>" using assms(2) epos by simp
  then have "54 - 52 \<le> ulp_exponent e" by (rule ulp_exponent_ge)
  then have k2: "2 \<le> k" by (simp add: k_def)
  then have "(2::real) powi 2 \<le> ?q" by (rule power_int_increasing) simp
  then have q4: "4 \<le> ?q" by simp
  have big: "(2::real) powi (k + 53) = of_int (2 ^ 53) * ?q"
    using power_int_split [of k "k + 53"] by simp
  have "e < 2 powi (k + 53)" using abs_less_ulp [OF e0] epos by (simp add: k_def)
  then have "of_int m * ?q < of_int (2 ^ 53) * ?q" using e big by simp
  then have "(of_int m :: real) < of_int (2 ^ 53)"
    using qpos by (simp only: mult_less_cancel_right_pos)
  then have "m < 2 ^ 53" by (simp only: of_int_less_iff)
  then have "m + 1 \<le> 2 ^ 53" by simp
  then have "(of_int (m + 1) :: real) \<le> of_int (2 ^ 53)" by (simp only: of_int_le_iff)
  then have "of_int (m + 1) * ?q \<le> of_int (2 ^ 53) * ?q"
    using qpos by (simp only: mult_le_cancel_right_pos)
  then have "e + ?q \<le> 2 powi (k + 53)" using e big by (simp add: algebra_simps)
  with q4 epos have "\<bar>e + 1\<bar> < 2 powi (k + 53)" by linarith
  moreover have "k + 52 + 1 = k + 53" by simp
  ultimately have up: "\<bar>e + 1\<bar> < 2 powi (k + 52 + 1)" by (simp only:)
  have "- 1074 < ulp_exponent e" using k2 by (simp add: k_def)
  from ulp_normal_le_abs [OF e0 this] have "2 powi (k + 52) \<le> \<bar>e\<bar>"
    by (simp only: k_def)
  then have "2 powi (k + 52) \<le> \<bar>e + 1\<bar>" using epos by linarith
  from ulp_exponent_eqI [OF this up] k2 have ue: "ulp_exponent (e + 1) = k" by simp
  have "(e + 1) / ?q = of_int m + 1 / ?q" using e qpos by (simp add: field_simps)
  moreover have "0 < 1 / ?q" "1 / ?q \<le> 1/4" using q4 qpos by (simp_all add: field_simps)
  ultimately have r: "round_half_even ((e + 1) / ?q) = m"
    using round_half_even_near [of "1 / ?q" m] by simp
  have y: "of_int m * ?q = e" using e by simp
  have n: "e + 1 \<noteq> 0" using epos by simp
  have b: "\<not> e \<ge> 2 ^ 1024" "\<not> e \<le> - (2 ^ 1024)" using fin by linarith+
  show ?thesis using n b by (simp add: rnd_def Let_def ue r y)
qed

lemma rnd_2: "rnd 2 = Fin 2"
  by (rule rnd_evalI [where e = 1 and m = "2 ^ 52"])
     (simp_all add: round_half_even_def power_int_minus)

lemma rnd_half: "rnd (1/2) = Fin (1/2)"
  by (rule rnd_evalI [where e = "- 1" and m = "2 ^ 52"])
     (simp_all add: round_half_even_def power_int_minus)

section \<open>Properties of the float operations\<close>



lemma fdiv_zero: "fdiv x (Fin 0) = Inl ZeroDivisionError"
  by simp

lemma fdiv_raises: "fdiv x y = Inl e \<Longrightarrow> e = ZeroDivisionError \<and> y = Fin 0"
  by (cases y; cases x) (auto split: if_splits)




section \<open>Properties of the monitor\<close>

lemma compute_arousal_unfold:
  assumes "fdiv tr mt = Inr tf"
  shows "compute_arousal self pe rm tr mt =
    (case penalty_of self (raw_arousal self pe rm tf) of
       Inl e \<Rightarrow> (Inl e, self)
     | Inr sp \<Rightarrow>
         (Inr (np_clip (fmul (raw_arousal self pe rm tf) sp) (Fin 0) (Fin 1)),
          self\<lparr> surprise_component :=
                  surprise_component self @ [fadd (Fin 1) (fmul (fabs pe) (surprise_sens self))],
                salience_component :=
                  salience_component self @ [fadd (Fin 1) (fmul (fabs rm) (salience_sens self))],
                stress_component := stress_component self @ [sp],
                current_arousal := np_clip (fmul (raw_arousal self pe rm tf) sp) (Fin 0) (Fin 1),
                arousal_history := arousal_history self @
                  [np_clip (fmul (raw_arousal self pe rm tf) sp) (Fin 0) (Fin 1)] \<rparr>))"
  unfolding compute_arousal_def raw_arousal_def excess_of_def penalty_of_def Let_def
  by (simp add: assms)

lemma compute_arousal_no_fraction:
  assumes "fdiv tr mt = Inl e"
  shows "compute_arousal self pe rm tr mt = (Inl e, self)"
  by (simp add: compute_arousal_def Let_def assms)




lemma compute_arousal_baseline:
  assumes mt: "x \<noteq> 0"
    and b: "base self = Fin b" "rnd b = Fin b" "0 \<le> b" "b \<le> 1"
    and t: "stress_thresh self = Fin t" "b \<le> t"
    and s: "surprise_sens self = Fin s1" "salience_sens self = Fin s2" "time_sens self = Fin s3"
  shows "compute_arousal self (Fin 0) (Fin 0) (Fin x) (Fin x) =
    (Inr (Fin b),
     self\<lparr> surprise_component := surprise_component self @ [Fin 1],
           salience_component := salience_component self @ [Fin 1],
           stress_component := stress_component self @ [Fin 1],
           current_arousal := Fin b,
           arousal_history := arousal_history self @ [Fin b] \<rparr>)"
proof -
  have tf: "fdiv (Fin x) (Fin x) = Inr (Fin 1)" using mt by (simp add: rnd_1)
  have raw: "raw_arousal self (Fin 0) (Fin 0) (Fin 1) = Fin b"
    using b s by (simp add: raw_arousal_def fsub_def rnd_0 rnd_1)
  have pen: "penalty_of self (Fin b) = Inr (Fin 1)"
    using t by (simp add: penalty_of_def)
  have clip: "np_clip (Fin b) (Fin 0) (Fin 1) = Fin b"
    using b by (simp add: np_clip_def np_maximum_def np_minimum_def)
  show ?thesis
    using b s by (simp add: compute_arousal_unfold [OF tf] raw pen clip rnd_0 rnd_1)
qed

lemma compute_arousal_appends:
  assumes "compute_arousal self pe rm tr mt = (Inr a, self')"
  shows "\<exists>z. self' = self\<lparr> surprise_component :=
                           surprise_component self @
                             [fadd (Fin 1) (fmul (fabs pe) (surprise_sens self))],
                         salience_component :=
                           salience_component self @
                             [fadd (Fin 1) (fmul (fabs rm) (salience_sens self))],
                         stress_component := stress_component self @ [z],
                         current_arousal := a,
                         arousal_history := arousal_history self @ [a] \<rparr>"
proof (cases "fdiv tr mt")
  case (Inl e)
  with assms show ?thesis by (simp add: compute_arousal_no_fraction)
next
  case (Inr tf)
  from assms show ?thesis
    by (auto simp: compute_arousal_unfold [OF Inr] split: sum.splits)
qed

lemma compute_arousal_raises:
  assumes "compute_arousal self pe rm tr mt = (Inl e, self')"
  shows "self' = self"
proof (cases "fdiv tr mt")
  case (Inl e')
  with assms show ?thesis by (simp add: compute_arousal_no_fraction)
next
  case (Inr tf)
  from assms show ?thesis
    by (auto simp: compute_arousal_unfold [OF Inr] split: sum.splits)
qed

lemma raw_arousal_idle:
  assumes "base self = Fin b" "rnd b = Fin b"
    and "surprise_sens self = Fin s1" "salience_sens self = Fin s2" "time_sens self = Fin s3"
  shows "raw_arousal self (Fin 0) (Fin 0) (Fin 1) = Fin b"
  using assms by (simp add: raw_arousal_def fsub_def rnd_0 rnd_1)

lemma default_monitor_fields:
  "base (default_monitor d) = Fin literal_0_3"
  "surprise_sens (default_monitor d) = Fin (1/2)"
  "salience_sens (default_monitor d) = Fin literal_0_3"
  "stress_thresh (default_monitor d) = Fin literal_0_8"
  "time_sens (default_monitor d) = Fin literal_0_2"
  "histories (default_monitor d) = ([], [], [], [])"
  by (simp_all add: default_monitor_def ArousalMonitor_init_def histories_def)

lemma literal_order: "0 \<le> literal_0_3" "literal_0_3 \<le> 1" "literal_0_3 \<le> literal_0_8"
  by (simp_all add: literal_0_3_def literal_0_8_def)

lemma idle_parts:
  "fadd (Fin 1) (fmul (fabs (Fin 0)) (Fin s)) = Fin 1"
  "x \<noteq> 0 \<Longrightarrow> fdiv (Fin x) (Fin x) = Inr (Fin 1)"
  "fadd (Fin 1) (fmul (fsub (Fin 1) (Fin 1)) (Fin s)) = Fin 1"
  by (simp_all add: fsub_def rnd_0 rnd_1)






text \<open>
  The two other ways out of \<open>[0, 1]\<close>, on the default monitor with
  \<open>max_time = 50\<close>: at the prediction error \<^verbatim>\<open>1e155\<close> the square of the excess
  overflows and the call raises \<^verbatim>\<open>OverflowError\<close>; at prediction error and reward
  magnitude \<^verbatim>\<open>1e308\<close> the raw arousal is infinite, the stress penalty is zero, and
  the call returns their product, nan.
\<close>

lemma overflow_step1: "rnd (literal_1e155 * (1/2)) = Fin (8397345134458861 * 2 ^ 461)"
  unfolding literal_1e155_def
  by (rule rnd_evalI [where e = 513 and m = 8397345134458861])
     (simp_all add: round_half_even_def)

lemma overflow_step2:
  "rnd (1 + 8397345134458861 * 2 ^ 461) = Fin (8397345134458861 * 2 ^ 461)"
  by (rule rnd_evalI [where e = 513 and m = 8397345134458861])
     (simp_all add: round_half_even_def)

lemma overflow_step3:
  "rnd (literal_0_3 * (8397345134458861 * 2 ^ 461)) = Fin (5038407080675316 * 2 ^ 460)"
  unfolding literal_0_3_def
  by (rule rnd_evalI [where e = 512 and m = 5038407080675316])
     (simp_all add: round_half_even_def)

lemma overflow_step4:
  "rnd (5038407080675316 * 2 ^ 460) = Fin (5038407080675316 * 2 ^ 460)"
  by (rule rnd_evalI [where e = 512 and m = 5038407080675316])
     (simp_all add: round_half_even_def)

lemma overflow_step5:
  "rnd (5038407080675316 * 2 ^ 460 - literal_0_8) = Fin (5038407080675316 * 2 ^ 460)"
  unfolding literal_0_8_def
  by (rule rnd_evalI [where e = 512 and m = 5038407080675316])
     (simp_all add: round_half_even_def)

lemma overflow_step6:
  "rnd (5038407080675316 * 2 ^ 460 / literal_0_8) = Fin (6298008850844145 * 2 ^ 460)"
  unfolding literal_0_8_def
  by (rule rnd_evalI [where e = 512 and m = 6298008850844145])
     (simp_all add: round_half_even_def)

lemma overflow_step7:
  "rnd (6298008850844145 * 2 ^ 460 * (6298008850844145 * 2 ^ 460)) = PInf"
  by (rule rnd_overflow) simp

lemma compute_arousal_overflow:
  "fst (compute_arousal (default_monitor ''state'') (Fin literal_1e155) (Fin 0) (Fin 50) (Fin 50))
     = Inl OverflowError"
proof -
  have tf: "fdiv (Fin 50) (Fin 50) = Inr (Fin 1)" by (simp add: rnd_1)
  have raw: "raw_arousal (default_monitor ''state'') (Fin literal_1e155) (Fin 0) (Fin 1)
      = Fin (5038407080675316 * 2 ^ 460)"
    using overflow_step1 overflow_step2 overflow_step3 overflow_step4
    by (simp add: raw_arousal_def default_monitor_fields rnd_0 rnd_1 fsub_def
          literal_1e155_def literal_0_3_def)
  have gt: "fgt (Fin (5038407080675316 * 2 ^ 460)) (Fin literal_0_8)"
    by (simp add: literal_0_8_def)
  have nz: "literal_0_8 \<noteq> 0" by (simp add: literal_0_8_def)
  have "penalty_of (default_monitor ''state'') (Fin (5038407080675316 * 2 ^ 460))
      = Inl OverflowError"
    using gt nz overflow_step5 overflow_step6 overflow_step7
    by (simp add: penalty_of_def excess_of_def default_monitor_fields fsub_def
          literal_0_8_def)
  then show ?thesis by (simp add: compute_arousal_unfold [OF tf] raw)
qed

lemma nan_step1: "rnd (literal_1e308 * (1/2)) = Fin (5010420900022432 * 2 ^ 970)"
  unfolding literal_1e308_def
  by (rule rnd_evalI [where e = 1022 and m = 5010420900022432])
     (simp_all add: round_half_even_def)

lemma nan_step2:
  "rnd (1 + 5010420900022432 * 2 ^ 970) = Fin (5010420900022432 * 2 ^ 970)"
  by (rule rnd_evalI [where e = 1022 and m = 5010420900022432])
     (simp_all add: round_half_even_def)

lemma nan_step3: "rnd (literal_1e308 * literal_0_3) = Fin (6012505080026918 * 2 ^ 969)"
  unfolding literal_1e308_def literal_0_3_def
  by (rule rnd_evalI [where e = 1021 and m = 6012505080026918])
     (simp_all add: round_half_even_def)

lemma nan_step4:
  "rnd (1 + 6012505080026918 * 2 ^ 969) = Fin (6012505080026918 * 2 ^ 969)"
  by (rule rnd_evalI [where e = 1021 and m = 6012505080026918])
     (simp_all add: round_half_even_def)

lemma nan_step5:
  "rnd (literal_0_3 * (5010420900022432 * 2 ^ 970)) = Fin (6012505080026918 * 2 ^ 968)"
  unfolding literal_0_3_def
  by (rule rnd_evalI [where e = 1020 and m = 6012505080026918])
     (simp_all add: round_half_even_def)

lemma nan_step6:
  "rnd (6012505080026918 * 2 ^ 968 * (6012505080026918 * 2 ^ 969)) = PInf"
  by (rule rnd_overflow) simp

lemma compute_arousal_nan:
  "fst (compute_arousal (default_monitor ''state'') (Fin literal_1e308) (Fin literal_1e308)
          (Fin 50) (Fin 50)) = Inr NaN"
proof -
  have tf: "fdiv (Fin 50) (Fin 50) = Inr (Fin 1)" by (simp add: rnd_1)
  have p: "0 \<le> literal_1e308" by (simp add: literal_1e308_def)
  have raw: "raw_arousal (default_monitor ''state'') (Fin literal_1e308) (Fin literal_1e308)
      (Fin 1) = PInf"
    using nan_step1 nan_step2 nan_step3 nan_step4 nan_step5 nan_step6
    by (simp add: raw_arousal_def default_monitor_fields rnd_0 rnd_1 fsub_def
          literal_1e308_def literal_0_3_def)
  have nz: "literal_0_8 \<noteq> 0" "0 < literal_0_8" by (simp_all add: literal_0_8_def)
  have "penalty_of (default_monitor ''state'') PInf = Inr (Fin 0)"
    using nz by (simp add: penalty_of_def excess_of_def default_monitor_fields fsub_def)
  then show ?thesis
    by (simp add: compute_arousal_unfold [OF tf] raw np_clip_def np_maximum_def np_minimum_def)
qed

lemma invoke_aligned:
  assumes al: "histories_aligned self"
  shows "histories_aligned (invoke np self c)"
proof (cases c)
  case (ComputeArousal pe rm tr mt)
  obtain r self' where r: "compute_arousal self pe rm tr mt = (r, self')"
    by (cases "compute_arousal self pe rm tr mt")
  show ?thesis
  proof (cases r)
    case (Inl e)
    with r compute_arousal_raises have "self' = self" by blast
    with al r ComputeArousal show ?thesis by (simp add: invoke_def)
  next
    case (Inr a)
    with r compute_arousal_appends [of self pe rm tr mt a self'] al ComputeArousal
    show ?thesis by (auto simp: invoke_def histories_aligned_def)
  qed
qed (use al in \<open>simp_all add: invoke_def histories_aligned_def get_learning_rate_multiplier_def
       get_exploration_bonus_def monitor_reset_def get_statistics_def Let_def\<close>)

lemma foldl_invoke_aligned:
  "histories_aligned self \<Longrightarrow> histories_aligned (foldl (invoke np) self cs)"
  by (induction cs arbitrary: self) (simp_all add: invoke_aligned)

text \<open>
  Claim C9. \<^verbatim>\<open>ArousalMonitor.reset\<close> sets \<open>current_arousal\<close> to the configured base
  arousal and changes nothing else: the four histories and the six configuration fields
  are as before the call.
\<close>

theorem monitor_reset_frame:
  "monitor_reset self = self\<lparr> current_arousal := base self \<rparr> \<and>
   current_arousal (monitor_reset self) = base self \<and>
   arousal_history (monitor_reset self) = arousal_history self \<and>
   surprise_component (monitor_reset self) = surprise_component self \<and>
   salience_component (monitor_reset self) = salience_component self \<and>
   stress_component (monitor_reset self) = stress_component self \<and>
   domain (monitor_reset self) = domain self \<and>
   base (monitor_reset self) = base self \<and>
   surprise_sens (monitor_reset self) = surprise_sens self \<and>
   salience_sens (monitor_reset self) = salience_sens self \<and>
   stress_thresh (monitor_reset self) = stress_thresh self \<and>
   time_sens (monitor_reset self) = time_sens self"
  by (simp add: monitor_reset_def)

text \<open>
  Claim C10, as amended. The four histories of a monitor always have the same length:
  they are empty at construction and stay aligned under every sequence of calls; a call
  of \<^verbatim>\<open>compute_arousal\<close> that returns appends exactly one element to each of them,
  one that raises (\<^verbatim>\<open>ZeroDivisionError\<close> or \<^verbatim>\<open>OverflowError\<close>) appends
  nothing, and \<^verbatim>\<open>reset\<close>,
  \<^verbatim>\<open>get_statistics\<close>, \<^verbatim>\<open>get_learning_rate_multiplier\<close> and
  \<^verbatim>\<open>get_exploration_bonus\<close> leave all four as they were.
\<close>

theorem histories_stay_aligned:
  "histories (ArousalMonitor_init d b ss sal th tp) = ([], [], [], []) \<and>
   histories_aligned (foldl (invoke np) (ArousalMonitor_init d b ss sal th tp) cs) \<and>
   (\<forall>a self'. compute_arousal self pe rm tr mt = (Inr a, self') \<longrightarrow>
      arousal_history self' = arousal_history self @ [a] \<and>
      surprise_component self' =
        surprise_component self @ [fadd (Fin 1) (fmul (fabs pe) (surprise_sens self))] \<and>
      salience_component self' =
        salience_component self @ [fadd (Fin 1) (fmul (fabs rm) (salience_sens self))] \<and>
      (\<exists>z. stress_component self' = stress_component self @ [z])) \<and>
   (\<forall>e self'. compute_arousal self pe rm tr mt = (Inl e, self') \<longrightarrow>
      histories self' = histories self) \<and>
   histories (monitor_reset self) = histories self \<and>
   histories (snd (get_statistics np self)) = histories self \<and>
   histories (snd (get_learning_rate_multiplier self base_lr arousal)) = histories self \<and>
   histories (snd (get_exploration_bonus self base_epsilon arousal)) = histories self"
proof (intro conjI allI impI)
  show "histories (ArousalMonitor_init d b ss sal th tp) = ([], [], [], [])"
    by (simp add: histories_def ArousalMonitor_init_def)
  have "histories_aligned (ArousalMonitor_init d b ss sal th tp)"
    by (simp add: histories_aligned_def ArousalMonitor_init_def)
  then show "histories_aligned (foldl (invoke np) (ArousalMonitor_init d b ss sal th tp) cs)"
    by (rule foldl_invoke_aligned)
next
  fix a self' assume r: "compute_arousal self pe rm tr mt = (Inr a, self')"
  from compute_arousal_appends [OF r] obtain z where
    s: "self' = self\<lparr> surprise_component :=
                        surprise_component self @
                          [fadd (Fin 1) (fmul (fabs pe) (surprise_sens self))],
                      salience_component :=
                        salience_component self @
                          [fadd (Fin 1) (fmul (fabs rm) (salience_sens self))],
                      stress_component := stress_component self @ [z],
                      current_arousal := a,
                      arousal_history := arousal_history self @ [a] \<rparr>"
    by blast
  from s show "arousal_history self' = arousal_history self @ [a]" by simp
  from s show "surprise_component self' =
      surprise_component self @ [fadd (Fin 1) (fmul (fabs pe) (surprise_sens self))]" by simp
  from s show "salience_component self' =
      salience_component self @ [fadd (Fin 1) (fmul (fabs rm) (salience_sens self))]" by simp
  from s show "\<exists>z. stress_component self' = stress_component self @ [z]" by simp
next
  fix e self' assume "compute_arousal self pe rm tr mt = (Inl e, self')"
  then show "histories self' = histories self"
    using compute_arousal_raises by blast
next
  show "histories (monitor_reset self) = histories self"
    by (simp add: histories_def monitor_reset_def)
  show "histories (snd (get_statistics np self)) = histories self"
    by (simp add: get_statistics_def)
  show "histories (snd (get_learning_rate_multiplier self base_lr arousal)) = histories self"
    by (simp add: get_learning_rate_multiplier_def Let_def)
  show "histories (snd (get_exploration_bonus self base_epsilon arousal)) = histories self"
    by (simp add: get_exploration_bonus_def Let_def)
qed

lemma default_baseline:
  "compute_arousal (default_monitor ''state'') (Fin 0) (Fin 0) (Fin 50) (Fin 50) =
    (Inr (Fin literal_0_3),
     (default_monitor ''state'')
       \<lparr> surprise_component := [Fin 1], salience_component := [Fin 1],
         stress_component := [Fin 1], current_arousal := Fin literal_0_3,
         arousal_history := [Fin literal_0_3] \<rparr>)"
  using compute_arousal_baseline [of 50 "default_monitor ''state''" literal_0_3 literal_0_8
          "1/2" literal_0_3 literal_0_2] rnd_literal_0_3 literal_order
  by (simp add: default_monitor_fields default_monitor_def ArousalMonitor_init_def)

theorem histories_stay_aligned_witness:
  "histories_aligned
     (foldl (invoke single_reductions) (default_monitor ''state'')
        [ComputeArousal (Fin 0) (Fin 0) (Fin 50) (Fin 50), MonitorReset,
         ComputeArousal (Fin 1) (Fin 2) (Fin 0) (Fin 0), GetStatistics]) \<and>
   fst (compute_arousal (default_monitor ''state'') (Fin 0) (Fin 0) (Fin 50) (Fin 50))
     = Inr (Fin literal_0_3) \<and>
   histories (snd (compute_arousal (default_monitor ''state'') (Fin 0) (Fin 0) (Fin 50) (Fin 50)))
     = ([Fin literal_0_3], [Fin 1], [Fin 1], [Fin 1]) \<and>
   fst (compute_arousal (default_monitor ''state'') (Fin 1) (Fin 2) (Fin 0) (Fin 0))
     = Inl ZeroDivisionError \<and>
   histories (snd (compute_arousal (default_monitor ''state'') (Fin 1) (Fin 2) (Fin 0) (Fin 0)))
     = ([], [], [], [])"
  using histories_stay_aligned [of "''state''" "Fin literal_0_3" "Fin (1/2)" "Fin literal_0_3"
          "Fin literal_0_8" "Fin literal_0_2" single_reductions
          "[ComputeArousal (Fin 0) (Fin 0) (Fin 50) (Fin 50), MonitorReset,
            ComputeArousal (Fin 1) (Fin 2) (Fin 0) (Fin 0), GetStatistics]"
          "default_monitor ''state''" "Fin 0" "Fin 0" "Fin 50" "Fin 50"]
        default_baseline
  by (simp add: default_monitor_def compute_arousal_no_fraction histories_def
        ArousalMonitor_init_def)

text \<open>
  Claim C10 as it is written (every call of \<^verbatim>\<open>compute_arousal\<close> appends one element
  to each history) fails for a call that raises: on a monitor constructed with
  \<open>stress_threshold = 0\<close> the call with \<open>max_time = 1\<close> raises, and the four
  histories are as empty as before it.
\<close>

theorem compute_arousal_raise_appends_nothing:
  "fst (compute_arousal zero_threshold_monitor (Fin 0) (Fin 0) (Fin 1) (Fin 1))
     = Inl ZeroDivisionError \<and>
   histories (snd (compute_arousal zero_threshold_monitor (Fin 0) (Fin 0) (Fin 1) (Fin 1)))
     = ([], [], [], [])"
proof -
  have tf: "fdiv (Fin 1) (Fin 1) = Inr (Fin 1)" by (simp add: rnd_1)
  have raw: "raw_arousal zero_threshold_monitor (Fin 0) (Fin 0) (Fin 1) = Fin literal_0_3"
    by (rule raw_arousal_idle [of _ literal_0_3 "1/2" literal_0_3 literal_0_2])
       (simp_all add: zero_threshold_monitor_def ArousalMonitor_init_def rnd_literal_0_3)
  have "penalty_of zero_threshold_monitor (Fin literal_0_3) = Inl ZeroDivisionError"
    by (simp add: penalty_of_def excess_of_def zero_threshold_monitor_def
          ArousalMonitor_init_def literal_0_3_def)
  then show ?thesis
    by (simp add: compute_arousal_unfold [OF tf] raw)
       (simp add: histories_def zero_threshold_monitor_def ArousalMonitor_init_def)
qed


section \<open>Properties of the integrator\<close>

text \<open>
  Claim C6, as amended. \<^verbatim>\<open>gated_integration\<close> returns \<open>(0.5, 0.5)\<close> when the
  absolute value of the binary64 difference of the two arousal values (the rounded
  difference) is below the threshold, \<open>(1, 0)\<close> when it is not and the state arousal is
  the larger one, and \<open>(0, 1)\<close> otherwise. Where the exact difference is a binary64
  number, the first case is the case that the exact absolute difference is below the
  threshold. For equal finite inputs and a positive threshold the result is
  \<open>(0.5, 0.5)\<close>.
\<close>

theorem gated_integration_cases:
  "(fgt T (fabs (fsub a_state a_agent)) \<longrightarrow>
      gated_integration a_state a_agent T = (Fin (1/2), Fin (1/2))) \<and>
   (\<not> fgt T (fabs (fsub a_state a_agent)) \<and> fgt a_state a_agent \<longrightarrow>
      gated_integration a_state a_agent T = (Fin 1, Fin 0)) \<and>
   (\<not> fgt T (fabs (fsub a_state a_agent)) \<and> \<not> fgt a_state a_agent \<longrightarrow>
      gated_integration a_state a_agent T = (Fin 0, Fin 1)) \<and>
   (\<forall>x y t. rnd (x - y) = Fin (x - y) \<longrightarrow>
      (fgt (Fin t) (fabs (fsub (Fin x) (Fin y))) \<longleftrightarrow> \<bar>x - y\<bar> < t)) \<and>
   (\<forall>x t. 0 < t \<longrightarrow> gated_integration (Fin x) (Fin x) (Fin t) = (Fin (1/2), Fin (1/2)))"
  by (auto simp: gated_integration_def Let_def fsub_def rnd_0)

theorem gated_integration_cases_witness:
  "gated_integration (Fin 1) (Fin (1/4)) (Fin (1/2)) = (Fin 1, Fin 0) \<and>
   gated_integration (Fin (1/4)) (Fin 1) (Fin (1/2)) = (Fin 0, Fin 1) \<and>
   gated_integration (Fin (1/2)) (Fin (1/4)) (Fin (1/2)) = (Fin (1/2), Fin (1/2)) \<and>
   gated_integration (Fin literal_0_3) (Fin literal_0_3) (Fin literal_0_2)
     = (Fin (1/2), Fin (1/2))"
proof -
  have r1: "rnd (1 - 1/4) = Fin (1 - 1/4)"
    by (rule rnd_evalI [where e = "- 1" and m = "3 * 2 ^ 51"])
       (simp_all add: round_half_even_def power_int_minus)
  have r2: "rnd (1/4 - 1) = Fin (1/4 - 1)"
    by (rule rnd_evalI [where e = "- 1" and m = "- (3 * 2 ^ 51)"])
       (simp_all add: round_half_even_def power_int_minus)
  have r3: "rnd (1/2 - 1/4) = Fin (1/2 - 1/4)"
    by (rule rnd_evalI [where e = "- 2" and m = "2 ^ 52"])
       (simp_all add: round_half_even_def power_int_minus)
  have p: "0 < literal_0_2" by (simp add: literal_0_2_def)
  from gated_integration_cases [of "Fin (1/2)" "Fin 1" "Fin (1/4)"]
       gated_integration_cases [of "Fin (1/2)" "Fin (1/4)" "Fin 1"]
       gated_integration_cases [of "Fin (1/2)" "Fin (1/2)" "Fin (1/4)"]
       r1 r2 r3 p
  show ?thesis by (simp add: fsub_def)
qed


lemma gated_difference:
  "rnd (literal_0_01 + - literal_0_11) = Fin (- literal_0_1)"
  unfolding literal_0_01_def literal_0_11_def literal_0_1_def
  by (rule rnd_evalI [where e = "- 4" and m = "- 7205759403792794"])
     (simp_all add: round_half_even_def power_int_minus)

text \<open>
  Claim C6 as it is written (with the exact difference) fails at the binary64 numbers
  that \<^verbatim>\<open>0.01\<close>, \<^verbatim>\<open>0.11\<close> and \<^verbatim>\<open>0.1\<close> denote: their exact difference is
  below the threshold, the rounded difference is the threshold itself, and the agent
  wins.
\<close>

theorem gated_integration_rounds:
  "\<bar>literal_0_01 - literal_0_11\<bar> < literal_0_1 \<and>
   gated_integration (Fin literal_0_01) (Fin literal_0_11) (Fin literal_0_1) = (Fin 0, Fin 1)"
proof -
  have "\<bar>literal_0_01 - literal_0_11\<bar> < literal_0_1"
    by (simp add: literal_0_01_def literal_0_11_def literal_0_1_def)
  moreover have "\<not> literal_0_01 > literal_0_11"
    by (simp add: literal_0_01_def literal_0_11_def)
  ultimately show ?thesis
    using gated_difference by (simp add: gated_integration_def fsub_def Let_def)
qed


subsection \<open>The softmax\<close>

lemma normalise_pair:
  assumes "0 \<le> e1" "0 \<le> e2" "rnd e1 = Fin e1" "rnd e2 = Fin e2"
    and s: "rnd (e1 + e2) = Fin s" and "s \<noteq> 0"
  shows "\<exists>w1 w2. rnd (e1 / s) = Fin w1 \<and> rnd (e2 / s) = Fin w2 \<and>
           0 \<le> w1 \<and> w1 \<le> 1 \<and> 0 \<le> w2 \<and> w2 \<le> 1 \<and> \<bar>w1 + w2 - 1\<bar> \<le> 2 powi (- 51)"
proof -
  define u :: real where "u = 2 powi (- 53)"
  define h :: real where "h = 2 powi (- 1075)"
  have upos: "0 < u" and hpos: "0 < h" by (simp_all add: u_def h_def)
  have small: "2 * u * u + 2 * h \<le> u" by (simp add: u_def h_def power_int_minus)
  have four: "4 * u = 2 powi (- 51)" by (simp add: u_def power_int_minus)
  have uhalf: "u \<le> 1/2" by (simp add: u_def power_int_minus)
  define z where "z = e1 + e2"
  have z0: "0 \<le> z" using assms(1,2) by (simp add: z_def)
  have s1: "e1 \<le> s" using rnd_mono_lower [OF assms(1,3) _ s] assms(2) by simp
  have s2: "e2 \<le> s" using rnd_mono_lower [OF assms(2,4) _ s] assms(1) by simp
  from s1 assms(1,6) have spos: "0 < s" by simp
  have x1: "0 \<le> e1 / s" "e1 / s \<le> 1" using assms(1) s1 spos by simp_all
  have x2: "0 \<le> e2 / s" "e2 / s \<le> 1" using assms(2) s2 spos by simp_all
  from rnd_le_one [OF x1] obtain w1 where w1: "rnd (e1 / s) = Fin w1" "0 \<le> w1" "w1 \<le> 1" by blast
  from rnd_le_one [OF x2] obtain w2 where w2: "rnd (e2 / s) = Fin w2" "0 \<le> w2" "w2 \<le> 1" by blast
  have d1: "\<bar>w1 - e1 / s\<bar> \<le> e1 / s * u + h"
    using rnd_error_bound [OF w1(1)] x1(1) by (simp add: u_def h_def)
  have d2: "\<bar>w2 - e2 / s\<bar> \<le> e2 / s * u + h"
    using rnd_error_bound [OF w2(1)] x2(1) by (simp add: u_def h_def)
  have zs: "\<bar>z - s\<bar> \<le> 2 * u * s"
  proof (cases "z < 2 powi (- 1022)")
    case True
    then have "rnd (e1 + e2) = Fin (e1 + e2)"
      unfolding z_def using assms(1-4) by (intro rnd_subnormal_sum)
    with s have "s = z" by (simp add: z_def)
    then show ?thesis using upos spos by simp
  next
    case False
    then have "2 powi (- 1022) \<le> \<bar>z\<bar>" using z0 by simp
    from ulp_exponent_normal [OF this] have "2 powi (ulp_exponent z) \<le> z * (2 * u)"
      using z0 power_int_add [of "2::real" 1 "- 53"] by (simp add: u_def)
    with rnd_error [of z s] s have e: "\<bar>s - z\<bar> \<le> z * u" by (simp add: z_def)
    have "z * u \<le> z * (1/2)" using uhalf z0 by (rule mult_left_mono)
    with e have "z \<le> 2 * s" by linarith
    then have "z * u \<le> 2 * s * u" using upos by simp
    with e show ?thesis by (simp add: abs_minus_commute mult.commute mult.left_commute)
  qed
  have "e1 / s + e2 / s - 1 = (z - s) / s" using spos by (simp add: z_def field_simps)
  then have "\<bar>e1 / s + e2 / s - 1\<bar> = \<bar>z - s\<bar> / s" using spos by simp
  also have "\<dots> \<le> 2 * u" using zs spos by (simp add: field_simps)
  finally have d3: "\<bar>e1 / s + e2 / s - 1\<bar> \<le> 2 * u" .
  then have "e1 / s + e2 / s \<le> 1 + 2 * u" by linarith
  then have "(e1 / s + e2 / s) * u \<le> (1 + 2 * u) * u" using upos by simp
  then have "e1 / s * u + e2 / s * u \<le> u + 2 * u * u" by (simp add: algebra_simps)
  with d1 d2 d3 small have "\<bar>w1 + w2 - 1\<bar> \<le> 4 * u" by linarith
  then have "\<bar>w1 + w2 - 1\<bar> \<le> 2 powi (- 51)" by (simp only: four)
  with w1 w2 show ?thesis by blast
qed

lemma np_exp_Fin:
  assumes "np_exp x = Fin e"
  shows "0 \<le> e \<and> rnd e = Fin e"
proof (cases x)
  case (Fin a)
  with assms have r: "rnd (exp a) = Fin e" by simp
  then have "rnd e = Fin e" by (rule rnd_idem)
  moreover have "0 \<le> e" using rnd_nonneg [of "exp a"] r by simp
  ultimately show ?thesis by simp
next
  case PInf
  with assms show ?thesis by simp
next
  case NInf
  with assms show ?thesis by (auto simp: rnd_0)
next
  case NaN
  with assms show ?thesis by simp
qed

text \<open>
  Claim C5, as amended. When neither exponential overflows and their sum neither
  overflows nor is zero, \<^verbatim>\<open>weighted_integration\<close> returns the two exponentials
  divided by their sum, each quotient rounded; both weights lie in the closed interval
  from \<open>0\<close> to \<open>1\<close>, and their sum differs from \<open>1\<close> by at most
  \<open>2 powi (- 51)\<close>.
\<close>

theorem weighted_integration_softmax:
  assumes "np_exp (np_div (Fin a) (Fin t)) = Fin e1"
    and "np_exp (np_div (Fin b) (Fin t)) = Fin e2"
    and "fadd (Fin e1) (Fin e2) = Fin s" and "s \<noteq> 0"
  shows "\<exists>w1 w2. weighted_integration (Fin a) (Fin b) (Fin t) = (Fin w1, Fin w2) \<and>
           rnd (e1 / s) = Fin w1 \<and> rnd (e2 / s) = Fin w2 \<and>
           0 \<le> w1 \<and> w1 \<le> 1 \<and> 0 \<le> w2 \<and> w2 \<le> 1 \<and> \<bar>w1 + w2 - 1\<bar> \<le> 2 powi (- 51)"
proof -
  from np_exp_Fin [OF assms(1)] np_exp_Fin [OF assms(2)] assms(3,4)
  have "\<exists>w1 w2. rnd (e1 / s) = Fin w1 \<and> rnd (e2 / s) = Fin w2 \<and>
           0 \<le> w1 \<and> w1 \<le> 1 \<and> 0 \<le> w2 \<and> w2 \<le> 1 \<and> \<bar>w1 + w2 - 1\<bar> \<le> 2 powi (- 51)"
    by (intro normalise_pair) simp_all
  moreover have "weighted_integration (Fin a) (Fin b) (Fin t) = (rnd (e1 / s), rnd (e2 / s))"
    using assms by (simp add: weighted_integration_def Let_def np_div_def)
  ultimately show ?thesis by auto
qed

theorem weighted_integration_softmax_witness:
  "np_exp (np_div (Fin 0) (Fin 1)) = Fin 1 \<and> fadd (Fin 1) (Fin 1) = Fin 2 \<and>
   weighted_integration (Fin 0) (Fin 0) (Fin 1) = (Fin (1/2), Fin (1/2)) \<and>
   (\<exists>w1 w2. weighted_integration (Fin 0) (Fin 0) (Fin 1) = (Fin w1, Fin w2) \<and>
      rnd (1 / 2) = Fin w1 \<and> rnd (1 / 2) = Fin w2 \<and>
      0 \<le> w1 \<and> w1 \<le> 1 \<and> 0 \<le> w2 \<and> w2 \<le> 1 \<and> \<bar>w1 + w2 - 1\<bar> \<le> 2 powi (- 51))"
proof -
  have e: "np_exp (np_div (Fin 0) (Fin 1)) = Fin 1" by (simp add: np_div_def rnd_0 rnd_1)
  have s: "fadd (Fin 1) (Fin 1) = Fin 2" by (simp add: rnd_2)
  have v: "weighted_integration (Fin 0) (Fin 0) (Fin 1) = (Fin (1/2), Fin (1/2))"
    by (simp add: weighted_integration_def Let_def np_div_def rnd_0 rnd_1 rnd_2 rnd_half)
  from weighted_integration_softmax [OF e e s] e s v show ?thesis by simp
qed

lemma temperature_quotient: "rnd (1 / literal_0_001) = Fin 1000"
  unfolding literal_0_001_def
  by (rule rnd_evalI [where e = 9 and m = 8796093022208000])
     (simp_all add: round_half_even_def)

lemma exp_1000_overflows: "(2::real) ^ 1024 \<le> exp 1000"
proof -
  have "(3/2::real) \<le> exp (1/2)" using exp_ge_add_one_self [of "1/2"] by simp
  then have "(3/2::real) ^ 12 \<le> exp (1/2) ^ 12" by (intro power_mono) simp_all
  also have "\<dots> = exp 6" by (simp add: exp_of_nat_mult [symmetric])
  finally have "(3/2::real) ^ 12 \<le> exp 6" .
  moreover have "(2::real) ^ 7 \<le> (3/2) ^ 12" by (simp add: power_divide)
  ultimately have six: "(2::real) ^ 7 \<le> exp 6" by linarith
  have "((2::real) ^ 7) ^ 166 \<le> exp 6 ^ 166" using six by (intro power_mono) simp_all
  also have "\<dots> = exp 996" by (simp add: exp_of_nat_mult [symmetric])
  also have "\<dots> \<le> exp 1000" by simp
  finally have "((2::real) ^ 7) ^ 166 \<le> exp 1000" .
  moreover have "(2::real) ^ 1024 \<le> (2 ^ 7) ^ 166" by simp
  ultimately show ?thesis by linarith
qed

lemma quotient_100: "rnd (1 / literal_0_01) = Fin 100"
  unfolding literal_0_01_def
  by (rule rnd_evalI [where e = 6 and m = 7036874417766400])
     (simp_all add: round_half_even_def)

lemma exp_6_lower: "(2::real) ^ 7 \<le> exp 6"
proof -
  have "(3/2::real) \<le> exp (1/2)" using exp_ge_add_one_self [of "1/2"] by simp
  then have "(3/2::real) ^ 12 \<le> exp (1/2) ^ 12" by (intro power_mono) simp_all
  also have "\<dots> = exp 6" by (simp add: exp_of_nat_mult [symmetric])
  finally have "(3/2::real) ^ 12 \<le> exp 6" .
  moreover have "(2::real) ^ 7 \<le> (3/2) ^ 12" by (simp add: power_divide)
  ultimately show ?thesis by linarith
qed

lemma exp_100_lower: "2 powi 54 \<le> exp (100::real)"
proof -
  have "((2::real) ^ 7) ^ 16 \<le> exp 6 ^ 16" using exp_6_lower by (intro power_mono) simp_all
  also have "\<dots> = exp 96" by (simp add: exp_of_nat_mult [symmetric])
  also have "\<dots> \<le> exp 100" by simp
  finally have "((2::real) ^ 7) ^ 16 \<le> exp 100" .
  moreover have "(2::real) powi 54 \<le> (2 ^ 7) ^ 16" by simp
  ultimately show ?thesis by linarith
qed

lemma exp_100_upper: "exp (100::real) \<le> 2 ^ 1023"
proof -
  have "exp (100::real) = exp 1 ^ 100" by (simp add: exp_of_nat_mult [symmetric])
  also have "\<dots> \<le> 3 ^ 100" using exp_le by (intro power_mono) simp_all
  also have "\<dots> \<le> 2 ^ 1023" by simp
  finally show ?thesis .
qed

lemma saturated_weights:
  "\<exists>w. weighted_integration (Fin 1) (Fin 0) (Fin literal_0_01) = (Fin 1, Fin w)"
proof -
  have nz: "literal_0_01 \<noteq> 0" by (simp add: literal_0_01_def)
  have q1: "np_div (Fin 1) (Fin literal_0_01) = Fin 100"
    using nz quotient_100 by (simp add: np_div_def)
  have q0: "np_div (Fin 0) (Fin literal_0_01) = Fin 0"
    using nz by (simp add: np_div_def rnd_0)
  have "\<bar>exp (100::real)\<bar> \<le> 2 ^ 1023" using exp_100_upper by simp
  from rnd_finite [OF this] obtain e where e: "rnd (exp 100) = Fin e" by blast
  from rnd_lower_bound [OF _ exp_100_lower] e have big: "2 powi 54 \<le> e" by simp
  have rep: "rnd e = Fin e" using e by (rule rnd_idem)
  have tot: "rnd (e + 1) = Fin e" using rep big by (rule rnd_absorbs_one)
  have "(1::real) \<le> 2 powi 54" by simp
  with big have e1: "1 \<le> e" by linarith
  then have "0 \<le> 1 / e" "1 / e \<le> 1" by simp_all
  from rnd_le_one [OF this] obtain w where w: "rnd (1 / e) = Fin w" by blast
  have d1: "np_div (Fin e) (Fin e) = Fin 1" using e1 by (simp add: np_div_def rnd_1)
  have d2: "np_div (Fin 1) (Fin e) = Fin w" using e1 w by (simp add: np_div_def)
  have "weighted_integration (Fin 1) (Fin 0) (Fin literal_0_01) = (Fin 1, Fin w)"
    by (simp add: weighted_integration_def Let_def q1 q0 e rnd_1 tot d1 d2)
  then show ?thesis by blast
qed

lemma overflowed_weights:
  "weighted_integration (Fin 1) (Fin 0) (Fin literal_0_001) = (NaN, Fin 0)"
proof -
  have nz: "literal_0_001 \<noteq> 0" by (simp add: literal_0_001_def)
  have q1: "np_div (Fin 1) (Fin literal_0_001) = Fin 1000"
    using nz temperature_quotient by (simp add: np_div_def)
  have q0: "np_div (Fin 0) (Fin literal_0_001) = Fin 0"
    using nz by (simp add: np_div_def rnd_0)
  have e1: "rnd (exp 1000) = PInf" by (rule rnd_overflow [OF exp_1000_overflows])
  have d1: "np_div PInf PInf = NaN" by (simp add: np_div_def)
  have d0: "np_div (Fin 1) PInf = Fin 0" by (simp add: np_div_def)
  show ?thesis
    by (simp add: weighted_integration_def Let_def q1 q0 e1 rnd_1 d1 d0)
qed

text \<open>
  Claim C5 as it is written fails on the code in two ways. At the arousal values
  \<open>1.0\<close> and \<open>0.0\<close> and the temperature \<^verbatim>\<open>0.001\<close> the quotient is \<open>1000.0\<close>,
  its exponential overflows to the infinity, and \<^verbatim>\<open>weighted_integration\<close> returns
  \<open>(nan, 0.0)\<close>: the weights neither sum to \<open>1\<close> nor lie between \<open>0\<close> and
  \<open>1\<close>. At the temperature \<^verbatim>\<open>0.01\<close> nothing overflows, the sum of the two
  exponentials rounds to the larger one, and the weight of the state is \<open>1.0\<close>: not
  strictly below \<open>1\<close>.
\<close>

theorem weighted_integration_fails:
  "weighted_integration (Fin 1) (Fin 0) (Fin literal_0_001) = (NaN, Fin 0) \<and>
   (\<exists>w. weighted_integration (Fin 1) (Fin 0) (Fin literal_0_01) = (Fin 1, Fin w))"
  using overflowed_weights saturated_weights by (rule conjI)

section \<open>Properties of the environment\<close>

subsection \<open>The branches of a step\<close>

lemma step_uninitialized: "self_state self = None \<Longrightarrow> step self act = (Inl RuntimeError, self)"
  by (simp add: step_def)

lemma step_interact_adjacent:
  assumes "self_state self = Some st" "is_adjacent_to_npc self (agent_pos st)"
  shows "step self INTERACT =
    (let mood = npc_mood_actual st;
         r = - 1/10 + (if mood = HOSTILE then - 5 else if mood = FRIENDLY then 1 else 0)
               + (if agent_pos st = self_goal_pos self then 10 else 0);
         d = ((interaction_count st + 1 \<ge> 3 \<and> mood = HOSTILE) \<or> agent_pos st = self_goal_pos self
               \<or> steps st + 1 \<ge> max_steps self);
         nst = st\<lparr> npc_mood_estimate := Some mood,
                   interaction_count := interaction_count st + 1,
                   steps := steps st + 1 \<rparr>
     in (Inr \<lparr> state = st, action = INTERACT, reward = r, next_state = nst, done = d,
               info = [''state_error'' \<mapsto> 0,
                       ''agent_error'' \<mapsto> (if mood = HOSTILE then 5 else 0)] \<rparr>,
         self\<lparr> self_state := Some nst,
               total_rewards := (if d then total_rewards self @ [r] else total_rewards self) \<rparr>))"
  using assms by (cases "npc_mood_actual st") (simp_all add: step_def Let_def)

lemma step_move_collision:
  assumes "self_state self = Some st" "act \<noteq> INTERACT"
    "\<not> is_valid_position self (fst (agent_pos st) + fst (action_to_delta act),
                               snd (agent_pos st) + snd (action_to_delta act))"
  shows "step self act =
    (let r = - 1/10 - 1 + (if agent_pos st = self_goal_pos self then 10 else 0);
         d = (agent_pos st = self_goal_pos self \<or> steps st + 1 \<ge> max_steps self);
         nst = st\<lparr> steps := steps st + 1 \<rparr>
     in (Inr \<lparr> state = st, action = act, reward = r, next_state = nst, done = d,
               info = [''state_error'' \<mapsto> 0, ''agent_error'' \<mapsto> 0, ''state_error'' \<mapsto> 1] \<rparr>,
         self\<lparr> self_state := Some nst,
               total_rewards := (if d then total_rewards self @ [r] else total_rewards self) \<rparr>))"
  using assms by (simp add: step_def Let_def split_beta)


lemma step_total:
  "self_state self = Some st \<Longrightarrow> \<exists>t self'. step self act = (Inr t, self')"
  by (simp add: step_def Let_def split_beta)


subsection \<open>The concrete environments, evaluated\<close>

lemma draw_start_example:
  "draw_start 5 (2, 3) (2, 2) (6 ## 3 ## sconst 0) = Some (Inr (1, 3), sconst 0)"
  by (subst draw_start.simps) (simp add: integers_def)

lemma reset_example:
  "reset goal_beside_npc_world =
     Some (Inr (hostile_at_goal_state\<lparr> agent_pos := (1, 3), steps := 0 \<rparr>),
           hostile_at_goal_world\<lparr> self_state := Some (hostile_at_goal_state\<lparr> agent_pos := (1, 3), steps := 0 \<rparr>),
                                   total_rewards := [] \<rparr>)"
proof -
  have m: "(3::nat) mod Suc (Suc 0) = Suc 0"
    by (simp add: numeral_3_eq_3 mod_Suc)
  show ?thesis
    by (simp add: reset_def goal_beside_npc_world_def SimpleSocialGridWorld_init_def
        default_rng_def update_npc_mood_def choice_def Let_def draw_start_example
        hostile_at_goal_state_def hostile_at_goal_world_def m)
qed


subsection \<open>Step before reset\<close>

lemma drive_steps_uninitialized:
  "self_state self = None \<Longrightarrow>
     drive self (map Step acts) = Some (map (\<lambda>a. StepResult (Inl RuntimeError)) acts, self)"
  by (induction acts) (simp_all add: perform_def step_uninitialized)


text \<open>
  Claim C7. On a freshly constructed environment \<^verbatim>\<open>self.state\<close> is \<^verbatim>\<open>None\<close>, and
  \<^verbatim>\<open>step(action)\<close> raises \<^verbatim>\<open>RuntimeError\<close> for every action: it returns no
  transition and leaves the environment exactly as it was, so that every further
  \<^verbatim>\<open>step\<close> before the first \<^verbatim>\<open>reset()\<close> raises as well.
\<close>

theorem step_before_reset:
  "self_state (SimpleSocialGridWorld_init seeded entropy sz npc goal f ms seed) = None \<and>
   step (SimpleSocialGridWorld_init seeded entropy sz npc goal f ms seed) act =
     (Inl RuntimeError, SimpleSocialGridWorld_init seeded entropy sz npc goal f ms seed) \<and>
   drive (SimpleSocialGridWorld_init seeded entropy sz npc goal f ms seed) (map Step acts) =
     Some (map (\<lambda>a. StepResult (Inl RuntimeError)) acts,
           SimpleSocialGridWorld_init seeded entropy sz npc goal f ms seed)"
proof -
  have n: "self_state (SimpleSocialGridWorld_init seeded entropy sz npc goal f ms seed) = None"
    by (simp add: SimpleSocialGridWorld_init_def)
  from n step_uninitialized [OF n] drive_steps_uninitialized [OF n] show ?thesis by simp
qed


subsection \<open>Wall collision\<close>

text \<open>
  Claim C3. In a running environment whose agent is not on the goal, a movement action
  whose candidate cell (the agent's cell plus the delta of the action) is outside the
  grid returns a transition that keeps the agent's cell, reports \<open>state_error = 1.0\<close>
  and \<open>agent_error = 0.0\<close>, has reward exactly \<open>-1.1\<close>, and leaves the mood
  estimate and the interaction count unchanged.
\<close>

theorem wall_collision:
  assumes "self_state self = Some st"
    and "agent_pos st \<noteq> self_goal_pos self"
    and "act \<in> {UP, DOWN, LEFT, RIGHT}"
    and "\<not> is_valid_position self (fst (agent_pos st) + fst (action_to_delta act),
                                   snd (agent_pos st) + snd (action_to_delta act))"
  shows "\<exists>t self'. step self act = (Inr t, self') \<and>
           state t = st \<and>
           agent_pos (next_state t) = agent_pos st \<and>
           info t ''state_error'' = Some 1 \<and>
           info t ''agent_error'' = Some 0 \<and>
           reward t = - 11/10 \<and>
           npc_mood_estimate (next_state t) = npc_mood_estimate st \<and>
           interaction_count (next_state t) = interaction_count st \<and>
           self_state self' = Some (next_state t)"
proof -
  from assms(3) have "act \<noteq> INTERACT" by auto
  from step_move_collision [OF assms(1) this assms(4)] assms(2)
  show ?thesis by (simp add: Let_def)
qed

theorem wall_collision_witness:
  "map_sum id reward (fst (step
      (hostile_at_goal_world\<lparr> self_state := Some (hostile_at_goal_state\<lparr> agent_pos := (0, 0) \<rparr>) \<rparr>)
      LEFT)) = Inr (- 11/10)"
  using wall_collision [of
      "hostile_at_goal_world\<lparr> self_state := Some (hostile_at_goal_state\<lparr> agent_pos := (0, 0) \<rparr>) \<rparr>"
      "hostile_at_goal_state\<lparr> agent_pos := (0, 0) \<rparr>" LEFT]
  by (auto simp: hostile_at_goal_world_def hostile_at_goal_state_def is_valid_position_def
        action_to_delta_def)


subsection \<open>Hostile interaction\<close>

text \<open>The start cell that \<^verbatim>\<open>reset\<close> draws is neither the goal nor the NPC; an
  episode goes on only while the agent is not on the goal.\<close>

lemma draw_start_avoids_aux:
  assumes "draw_start n goal npc g = Some r"
  shows "\<forall>p g'. r = (Inr p, g') \<longrightarrow> p \<noteq> goal \<and> p \<noteq> npc"
proof (rule draw_start.raw_induct
    [where P = "\<lambda>n goal npc g r. \<forall>p g'. r = (Inr p, g') \<longrightarrow> p \<noteq> goal \<and> p \<noteq> npc", OF _ assms])
  fix f n goal npc g r
  assume IH: "\<And>n goal npc g r. f n goal npc g = Some r \<Longrightarrow>
      \<forall>p g'. r = (Inr p, g') \<longrightarrow> p \<noteq> goal \<and> p \<noteq> npc"
    and step: "(case integers g 0 n of
        (Inl e, g1) \<Rightarrow> Some (Inl e, g1)
      | (Inr x, g1) \<Rightarrow>
          (case integers g1 0 n of
             (Inl e, g2) \<Rightarrow> Some (Inl e, g2)
           | (Inr y, g2) \<Rightarrow>
               if (x, y) \<noteq> goal \<and> (x, y) \<noteq> npc then Some (Inr (x, y), g2)
               else f n goal npc g2)) = Some r"
  show "\<forall>p g'. r = (Inr p, g') \<longrightarrow> p \<noteq> goal \<and> p \<noteq> npc"
  proof (cases "integers g 0 n")
    case (Pair a g1)
    show ?thesis
    proof (cases a)
      case (Inl e)
      with Pair step show ?thesis by auto
    next
      case (Inr x)
      show ?thesis
      proof (cases "integers g1 0 n")
        case p2: (Pair b g2)
        show ?thesis
        proof (cases b)
          case (Inl e)
          with Pair Inr p2 step show ?thesis by auto
        next
          case y: (Inr y)
          show ?thesis
          proof (cases "(x, y) \<noteq> goal \<and> (x, y) \<noteq> npc")
            case True
            with Pair Inr p2 y step show ?thesis by auto
          next
            case False
            with Pair Inr p2 y step have "f n goal npc g2 = Some r" by auto
            then show ?thesis by (rule IH)
          qed
        qed
      qed
    qed
  qed
qed

lemma reset_not_on_goal:
  assumes "reset self = Some (Inr st, self')"
  shows "self_state self' = Some st \<and> agent_pos st \<noteq> self_goal_pos self'"
proof -
  have g: "self_goal_pos (update_npc_mood s) = self_goal_pos s"
      "self_npc_pos (update_npc_mood s) = self_npc_pos s"
      "grid_size (update_npc_mood s) = grid_size s" for s
    by (simp_all add: update_npc_mood_def choice_def Let_def)
  from assms show ?thesis
    by (auto simp: reset_def Let_def g split: if_splits option.splits prod.splits sum.splits
             dest: draw_start_avoids_aux)
qed

lemma step_not_done:
  assumes "step self act = (Inr t, self')" "\<not> done t"
  shows "\<exists>st'. self_state self' = Some st' \<and> agent_pos st' \<noteq> self_goal_pos self'"
proof (cases "self_state self")
  case None
  with assms show ?thesis by (simp add: step_def)
next
  case (Some st)
  with assms show ?thesis
    by (auto simp: step_def Let_def split_beta split: if_splits)
qed

lemma in_episode_not_on_goal:
  "in_episode self \<Longrightarrow> \<exists>st. self_state self = Some st \<and> agent_pos st \<noteq> self_goal_pos self"
proof (induction rule: in_episode.induct)
  case (started self st self')
  then show ?case using reset_not_on_goal by blast
next
  case (continued self act t self')
  then show ?case using step_not_done by blast
qed

text \<open>
  Claim C2. In an environment in an unfinished episode whose agent is at Manhattan
  distance 1 from the NPC and whose actual mood is \<open>HOSTILE\<close>, \<^verbatim>\<open>step(INTERACT)\<close>
  returns a transition whose reward is \<open>-0.1 - 5.0 = -5.1\<close> (so at most \<open>-5.1\<close>), whose
  info has \<open>agent_error = 5.0\<close>, whose next state has the mood estimate \<open>HOSTILE\<close>
  and the interaction count incremented by one, and which has \<open>done\<close> set when the
  incremented count is at least 3.
\<close>

theorem hostile_interaction:
  assumes "in_episode self"
    and "self_state self = Some st"
    and "is_adjacent_to_npc self (agent_pos st)"
    and "npc_mood_actual st = HOSTILE"
  shows "\<exists>t self'. step self INTERACT = (Inr t, self') \<and>
           state t = st \<and>
           reward t = - 51/10 \<and> reward t \<le> - 51/10 \<and>
           info t ''agent_error'' = Some 5 \<and>
           npc_mood_estimate (next_state t) = Some HOSTILE \<and>
           interaction_count (next_state t) = interaction_count st + 1 \<and>
           (interaction_count st + 1 \<ge> 3 \<longrightarrow> done t) \<and>
           self_state self' = Some (next_state t)"
proof -
  from in_episode_not_on_goal [OF assms(1)] assms(2)
  have "agent_pos st \<noteq> self_goal_pos self" by auto
  with assms(2,3,4) show ?thesis by (simp add: step_interact_adjacent Let_def)
qed

lemma in_episode_example:
  "in_episode (hostile_at_goal_world
     \<lparr> self_state := Some (hostile_at_goal_state\<lparr> agent_pos := (1, 2) \<rparr>), total_rewards := [] \<rparr>)"
proof -
  let ?w1 = "hostile_at_goal_world
     \<lparr> self_state := Some (hostile_at_goal_state\<lparr> agent_pos := (1, 3), steps := 0 \<rparr>),
       total_rewards := [] \<rparr>"
  have "in_episode ?w1" using reset_example by (rule in_episode.started)
  moreover have "\<exists>t. step ?w1 UP =
      (Inr t, hostile_at_goal_world
         \<lparr> self_state := Some (hostile_at_goal_state\<lparr> agent_pos := (1, 2) \<rparr>),
           total_rewards := [] \<rparr>) \<and> \<not> done t"
    by (simp add: step_def Let_def hostile_at_goal_world_def hostile_at_goal_state_def
          action_to_delta_def is_valid_position_def)
  ultimately show ?thesis using in_episode.continued by blast
qed

theorem hostile_interaction_witness:
  "map_sum id reward (fst (step
      (hostile_at_goal_world
         \<lparr> self_state := Some (hostile_at_goal_state\<lparr> agent_pos := (1, 2) \<rparr>),
           total_rewards := [] \<rparr>)
      INTERACT)) = Inr (- 51/10)"
  using hostile_interaction [OF in_episode_example,
      of "hostile_at_goal_state\<lparr> agent_pos := (1, 2) \<rparr>"]
  by (auto simp: hostile_at_goal_world_def hostile_at_goal_state_def is_adjacent_to_npc_def)

subsection \<open>Mood changes\<close>

lemma update_npc_mood_changes:
  "current_mood (update_npc_mood self) \<noteq> current_mood self \<and>
   current_mood (update_npc_mood self) \<in> set (remove1 (current_mood self) [FRIENDLY, NEUTRAL, HOSTILE])"
proof -
  let ?i = "shd (rng self) mod Suc (Suc 0)"
  have "?i < Suc (Suc 0)" by (rule mod_less_divisor) simp
  then have "?i = 0 \<or> ?i = Suc 0" by linarith
  then show ?thesis
  proof
    assume z: "?i = 0"
    show ?thesis
      by (cases "current_mood self") (simp_all add: update_npc_mood_def choice_def Let_def z)
  next
    assume z: "?i = Suc 0"
    show ?thesis
      by (cases "current_mood self") (simp_all add: update_npc_mood_def choice_def Let_def z)
  qed
qed

lemma update_npc_mood_frame:
  "episode_count (update_npc_mood self) = episode_count self \<and>
   mood_change_freq (update_npc_mood self) = mood_change_freq self \<and>
   self_state (update_npc_mood self) = self_state self"
  by (simp add: update_npc_mood_def choice_def Let_def)

lemma reset_mood:
  assumes "reset self = Some (r, self')"
  shows "episode_count self' = episode_count self + 1 \<and>
         current_mood self' =
           (if mood_change_freq self \<noteq> 0 \<and> (episode_count self + 1) mod mood_change_freq self = 0
            then current_mood (update_npc_mood (self\<lparr> episode_count := episode_count self + 1 \<rparr>))
            else current_mood self) \<and>
         (\<forall>st. r = Inr st \<longrightarrow> npc_mood_actual st = current_mood self' \<and> self_state self' = Some st)"
  using assms
  by (auto simp: reset_def Let_def update_npc_mood_frame
           split: if_splits option.splits prod.splits sum.splits)

lemma step_mood:
  assumes "step self act = (q, self')"
  shows "current_mood self' = current_mood self \<and> episode_count self' = episode_count self \<and>
         (\<forall>t. q = Inr t \<longrightarrow> npc_mood_actual (next_state t) = npc_mood_actual (state t) \<and>
                self_state self = Some (state t) \<and> self_state self' = Some (next_state t))"
proof (cases "self_state self")
  case None
  with assms show ?thesis by (auto simp: step_def)
next
  case (Some st)
  with assms show ?thesis
    by (auto simp: step_def Let_def split_beta)
qed

lemma drive_steps_mood:
  "drive self (map Step acts) = Some (rs, self') \<Longrightarrow>
     current_mood self' = current_mood self \<and> episode_count self' = episode_count self \<and>
     (\<forall>st. self_state self = Some st \<longrightarrow>
        (\<exists>st'. self_state self' = Some st' \<and> npc_mood_actual st' = npc_mood_actual st))"
proof (induction acts arbitrary: self rs)
  case Nil
  then show ?case by simp
next
  case (Cons a acts)
  obtain q self1 where s: "step self a = (q, self1)" by (cases "step self a")
  with Cons.prems obtain rs1 where d: "drive self1 (map Step acts) = Some (rs1, self')"
    by (auto simp: perform_def split: option.splits)
  note ih = Cons.IH [OF d]
  note sm = step_mood [OF s]
  show ?case
  proof (intro conjI allI impI)
    show "current_mood self' = current_mood self" using ih sm by simp
    show "episode_count self' = episode_count self" using ih sm by simp
  next
    fix st assume st: "self_state self = Some st"
    then obtain t self2 where "step self a = (Inr t, self2)"
      by (auto simp: step_def Let_def split_beta)
    with s have q: "q = Inr t" by simp
    with sm st have "state t = st" "self_state self1 = Some (next_state t)"
      "npc_mood_actual (next_state t) = npc_mood_actual st" by auto
    with ih show "\<exists>st'. self_state self' = Some st' \<and> npc_mood_actual st' = npc_mood_actual st"
      by auto
  qed
qed


text \<open>
  Claim C8. A \<^verbatim>\<open>reset()\<close> that returns or raises has incremented the episode
  counter; the mood after it differs from the mood before it only if the incremented
  counter is a multiple of the mood change frequency, and in that case it does differ
  and is one of the two other moods; the state returned carries the current mood. A
  \<^verbatim>\<open>step\<close> changes neither the current mood nor the actual mood of the state, and
  so does any sequence of steps.
\<close>

theorem mood_changes_only_on_reset:
  "(reset self = Some (r, self1) \<longrightarrow>
      episode_count self1 = episode_count self + 1 \<and>
      (current_mood self1 \<noteq> current_mood self \<longrightarrow>
         mood_change_freq self \<noteq> 0 \<and> episode_count self1 mod mood_change_freq self = 0) \<and>
      (mood_change_freq self \<noteq> 0 \<and> episode_count self1 mod mood_change_freq self = 0 \<longrightarrow>
         current_mood self1 \<noteq> current_mood self \<and>
         current_mood self1 \<in> set (remove1 (current_mood self) [FRIENDLY, NEUTRAL, HOSTILE])) \<and>
      (\<forall>st. r = Inr st \<longrightarrow> npc_mood_actual st = current_mood self1)) \<and>
   (step self act = (q, self2) \<longrightarrow>
      current_mood self2 = current_mood self \<and>
      (\<forall>t. q = Inr t \<longrightarrow> npc_mood_actual (next_state t) = npc_mood_actual (state t))) \<and>
   (drive self (map Step acts) = Some (rs, self3) \<longrightarrow>
      current_mood self3 = current_mood self \<and>
      (\<forall>st. self_state self = Some st \<longrightarrow>
         (\<exists>st'. self_state self3 = Some st' \<and> npc_mood_actual st' = npc_mood_actual st)))"
proof -
  have p1: "episode_count self1 = episode_count self + 1 \<and>
      (current_mood self1 \<noteq> current_mood self \<longrightarrow>
         mood_change_freq self \<noteq> 0 \<and> episode_count self1 mod mood_change_freq self = 0) \<and>
      (mood_change_freq self \<noteq> 0 \<and> episode_count self1 mod mood_change_freq self = 0 \<longrightarrow>
         current_mood self1 \<noteq> current_mood self \<and>
         current_mood self1 \<in> set (remove1 (current_mood self) [FRIENDLY, NEUTRAL, HOSTILE])) \<and>
      (\<forall>st. r = Inr st \<longrightarrow> npc_mood_actual st = current_mood self1)"
    if a: "reset self = Some (r, self1)"
  proof -
    note rm = reset_mood [OF a]
    let ?u = "update_npc_mood (self\<lparr> episode_count := episode_count self + 1 \<rparr>)"
    have uc: "current_mood ?u \<noteq> current_mood self \<and>
              current_mood ?u \<in> set (remove1 (current_mood self) [FRIENDLY, NEUTRAL, HOSTILE])"
      using update_npc_mood_changes [of "self\<lparr> episode_count := episode_count self + 1 \<rparr>"]
      by simp
    have e: "episode_count self1 = episode_count self + 1" using rm by simp
    have c: "current_mood self1 =
           (if mood_change_freq self \<noteq> 0 \<and> episode_count self1 mod mood_change_freq self = 0
            then current_mood ?u else current_mood self)"
      using rm by simp
    have m: "\<forall>st. r = Inr st \<longrightarrow> npc_mood_actual st = current_mood self1" using rm by simp
    show ?thesis
    proof (cases "mood_change_freq self \<noteq> 0 \<and> episode_count self1 mod mood_change_freq self = 0")
      case True
      with c have "current_mood self1 = current_mood ?u" by simp
      with uc e m True show ?thesis by simp
    next
      case False
      with c have "current_mood self1 = current_mood self" by simp
      with e m False show ?thesis by simp
    qed
  qed
  have p2: "current_mood self2 = current_mood self \<and>
      (\<forall>t. q = Inr t \<longrightarrow> npc_mood_actual (next_state t) = npc_mood_actual (state t))"
    if "step self act = (q, self2)"
    using step_mood [OF that] by simp
  have p3: "current_mood self3 = current_mood self \<and>
      (\<forall>st. self_state self = Some st \<longrightarrow>
         (\<exists>st'. self_state self3 = Some st' \<and> npc_mood_actual st' = npc_mood_actual st))"
    if "drive self (map Step acts) = Some (rs, self3)"
    using drive_steps_mood [OF that] by simp
  from p1 p2 p3 show ?thesis by blast
qed


theorem mood_changes_only_on_reset_witness:
  "current_mood goal_beside_npc_world = NEUTRAL \<and>
   map_option (\<lambda>p. current_mood (snd p)) (reset goal_beside_npc_world) = Some HOSTILE \<and>
   map_option (\<lambda>p. episode_count (snd p) mod mood_change_freq goal_beside_npc_world)
     (reset goal_beside_npc_world) = Some 0 \<and>
   current_mood (snd (step goal_beside_npc_world UP)) = NEUTRAL"
  using mood_changes_only_on_reset [of goal_beside_npc_world
      "Inr (hostile_at_goal_state\<lparr> agent_pos := (1, 3), steps := 0 \<rparr>)"
      "hostile_at_goal_world\<lparr> self_state := Some (hostile_at_goal_state\<lparr> agent_pos := (1, 3), steps := 0 \<rparr>),
                              total_rewards := [] \<rparr>"
      UP "Inl RuntimeError" goal_beside_npc_world "[]" "[]" goal_beside_npc_world]
    reset_example
  by (simp add: goal_beside_npc_world_def SimpleSocialGridWorld_init_def step_def
        hostile_at_goal_world_def)

end
